theory Spec2Isabelle
  imports Complex_Main "HOL-Library.Sublist"
begin

section \<open>Python values, exceptions and effects\<close>

text \<open>
  The trainer of \<^verbatim>\<open>bayesflow/trainers.py\<close> is a piece of orchestration: it calls a
  generative model, a configurator, an amortizer and a checkpoint manager, all of them
  supplied from outside. They are modelled as functions that read and change an opaque
  state of type \<open>'w\<close> (random generator, network weights, files) and either return a value
  or raise.  An exception is its class together with the text \<^verbatim>\<open>str(err)\<close>.
  Logging and the progress bars are display only and are left out.
\<close>

datatype exn_class =
    SimulationError | ConfigurationError | NotImplementedError
  | KeyError | ValueError | TypeError
  | KeyboardInterrupt | SystemExit
  | UserException string

datatype exn = Exn exn_class string

fun exn_cls :: "exn \<Rightarrow> exn_class" where
  "exn_cls (Exn c s) = c"

fun exn_str :: "exn \<Rightarrow> string" where
  "exn_str (Exn c s) = s"

text \<open>
  \<^verbatim>\<open>isinstance(err, Exception)\<close>: in Python every exception derives from
  \<^verbatim>\<open>BaseException\<close>, and all but the system-exiting ones from \<^verbatim>\<open>Exception\<close>.
\<close>

fun derives_Exception :: "exn_class \<Rightarrow> bool" where
  "derives_Exception KeyboardInterrupt = False"
| "derives_Exception SystemExit = False"
| "derives_Exception c = True"

text \<open>
  An entry of a simulation dictionary: \<^verbatim>\<open>None\<close>, a zero-dimensional value, or an array
  with its rows along axis 0 and the shape of one row.
\<close>

datatype pyval = PNone | Scalar real | NDArray "nat list" "real list list"

type_synonym sim_dict = "(string \<times> pyval) list"

text \<open>
  \<^verbatim>\<open>np.concatenate((a, b), axis=0)\<close>: both arguments must be arrays of at least one
  dimension whose shapes agree off axis 0 (the texts of numpy's errors are abbreviated).
\<close>

fun np_concatenate :: "pyval \<Rightarrow> pyval \<Rightarrow> exn + pyval" where
  "np_concatenate (NDArray sa ra) (NDArray sb rb) =
     (if sa = sb then Inr (NDArray sa (ra @ rb))
      else Inl (Exn ValueError ''all the input array dimensions except for the concatenation axis must match exactly''))"
| "np_concatenate a b = Inl (Exn ValueError ''zero-dimensional arrays cannot be concatenated'')"

text \<open>
  Keyword arguments: a dictionary from names to values, a value being a dictionary again
  or not. Names that collide with a parameter of the method called (\<^verbatim>\<open>batch_size\<close>,
  \<^verbatim>\<open>forward_dict\<close>, \<^verbatim>\<open>n_sim\<close>) are not considered.
\<close>

datatype kwval = KwDict "(string \<times> kwval) list" | KwAtom string

type_synonym kwargs = "(string \<times> kwval) list"

text \<open>
  The state: the opaque state of the collaborators, and a ghost record of what the trainer
  asked for, in order: every invocation of the generative model with its outcome, and
  every entry into offline training with the dictionary it was given.
\<close>

datatype event = Simulate int "exn + sim_dict" | Offline sim_dict

record 'w world =
  env :: 'w
  events :: "event list"

type_synonym ('a, 'w) ext = "'w \<Rightarrow> (exn + 'a) \<times> 'w"

type_synonym ('a, 'w) action = "'w world \<Rightarrow> (exn + 'a) \<times> 'w world"

definition returnE :: "'a \<Rightarrow> ('a, 'w) action" where
  "returnE x w = (Inr x, w)"

definition raise :: "exn \<Rightarrow> ('a, 'w) action" where
  "raise e w = (Inl e, w)"

definition bindE :: "('a, 'w) action \<Rightarrow> ('a \<Rightarrow> ('b, 'w) action) \<Rightarrow> ('b, 'w) action" where
  "bindE m f w = (case m w of (Inl e, w') \<Rightarrow> (Inl e, w') | (Inr x, w') \<Rightarrow> f x w')"

definition liftE :: "exn + 'a \<Rightarrow> ('a, 'w) action" where
  "liftE r w = (r, w)"

text \<open>Calling a collaborator changes the opaque state only.\<close>

definition call :: "('a, 'w) ext \<Rightarrow> ('a, 'w) action" where
  "call f w = (case f (env w) of (r, e') \<Rightarrow> (r, w\<lparr>env := e'\<rparr>))"

definition record_event :: "event \<Rightarrow> (unit, 'w) action" where
  "record_event ev w = (Inr (), w\<lparr>events := events w @ [ev]\<rparr>)"

text \<open>\<^verbatim>\<open>try: body except Exception as err: handler(err)\<close>\<close>

definition try_except_Exception ::
  "('a, 'w) action \<Rightarrow> (exn \<Rightarrow> ('a, 'w) action) \<Rightarrow> ('a, 'w) action" where
  "try_except_Exception body handler w =
     (case body w of
        (Inl err, w') \<Rightarrow> if derives_Exception (exn_cls err) then handler err w' else (Inl err, w')
      | (Inr x, w') \<Rightarrow> (Inr x, w'))"

text \<open>
  \<^verbatim>\<open>**kwargs.pop(key, {})\<close>: the value under the key, unpacked as keyword arguments; a
  value that is not a mapping cannot be unpacked.
\<close>

definition pop_args :: "string \<Rightarrow> kwargs \<Rightarrow> exn + kwargs" where
  "pop_args key kw =
     (case map_of kw key of
        None \<Rightarrow> Inr []
      | Some (KwDict d) \<Rightarrow> Inr d
      | Some (KwAtom a) \<Rightarrow> Inl (Exn TypeError ''argument after ** must be a mapping''))"

section \<open>The trainer\<close>

text \<open>
  The attributes of a \<^verbatim>\<open>Trainer\<close> that its methods use. The amortizer appears as its loss
  computation and as the gradient step taken on a loss (\<^verbatim>\<open>tape.gradient\<close> followed by
  \<^verbatim>\<open>apply_gradients\<close> with the trainer's optimizer and clipping); the checkpoint manager
  as its \<^verbatim>\<open>save\<close>. \<open>'i\<close> is the type of a configured input dictionary.
\<close>

record ('w, 'i) trainer =
  compute_loss :: "'i \<Rightarrow> kwargs \<Rightarrow> (real, 'w) ext"
  apply_gradients :: "real \<Rightarrow> (unit, 'w) ext"
  generative_model :: "(int \<Rightarrow> kwargs \<Rightarrow> (sim_dict, 'w) ext) option"
  configurator :: "sim_dict \<Rightarrow> kwargs \<Rightarrow> ('i, 'w) ext"
  manager :: "(unit, 'w) ext option"

text \<open>
  Invoking the generative model, recorded. Dictionaries are values here: each call yields
  a dictionary of its own, which no later call changes.
\<close>

definition invoke_generative_model ::
  "(int \<Rightarrow> kwargs \<Rightarrow> (sim_dict, 'w) ext) \<Rightarrow> int \<Rightarrow> kwargs \<Rightarrow> (sim_dict, 'w) action" where
  "invoke_generative_model g n_sim kw w =
     (case g n_sim kw (env w) of
        (r, e') \<Rightarrow> (r, w\<lparr>env := e', events := events w @ [Simulate n_sim r]\<rparr>))"

text \<open>\<^verbatim>\<open>Trainer._forward_inference\<close>\<close>

definition forward_inference :: "('w, 'i) trainer \<Rightarrow> int \<Rightarrow> kwargs \<Rightarrow> (sim_dict, 'w) action" where
  "forward_inference self n_sim kw =
     (case generative_model self of
        None \<Rightarrow> raise (Exn SimulationError ''No generative model specified. Only offline learning is available!'')
      | Some g \<Rightarrow> invoke_generative_model g n_sim kw)"

text \<open>\<^verbatim>\<open>Trainer._backprop_step\<close>\<close>

definition backprop_step :: "('w, 'i) trainer \<Rightarrow> 'i \<Rightarrow> kwargs \<Rightarrow> (real, 'w) action" where
  "backprop_step self input_dict kw =
     bindE (call (compute_loss self input_dict kw)) (\<lambda>loss.
     bindE (call (apply_gradients self loss)) (\<lambda>_.
     returnE loss))"

text \<open>\<^verbatim>\<open>Trainer._train_step\<close>; a \<open>forward_dict\<close> that is given is not simulated.\<close>

definition train_step ::
  "('w, 'i) trainer \<Rightarrow> int \<Rightarrow> sim_dict option \<Rightarrow> kwargs \<Rightarrow> (real, 'w) action" where
  "train_step self batch_size forward_dict kw =
     bindE (case forward_dict of
              None \<Rightarrow> bindE (liftE (pop_args ''model_args'' kw)) (forward_inference self batch_size)
            | Some d \<Rightarrow> returnE d) (\<lambda>forward_dict.
     bindE (liftE (pop_args ''conf_args'' kw)) (\<lambda>conf_args.
     bindE (call (configurator self forward_dict conf_args)) (\<lambda>input_dict.
     bindE (liftE (pop_args ''net_args'' kw)) (\<lambda>net_args.
     backprop_step self input_dict net_args))))"

text \<open>Storing a checkpoint after an epoch, if there is a manager and it is asked for.\<close>

definition save_after_epoch :: "('w, 'i) trainer \<Rightarrow> bool \<Rightarrow> (unit, 'w) action" where
  "save_after_epoch self save_checkpoint =
     (case manager self of
        Some save \<Rightarrow> if save_checkpoint then call save else returnE ()
      | None \<Rightarrow> returnE ())"

type_synonym losses = "(int \<times> real list) list"

text \<open>\<^verbatim>\<open>Trainer.train_online\<close>: the loop over the iterations of an epoch, and over the epochs.\<close>

fun online_iterations ::
  "('w, 'i) trainer \<Rightarrow> int \<Rightarrow> kwargs \<Rightarrow> int list \<Rightarrow> real list \<Rightarrow> (real list, 'w) action" where
  "online_iterations self batch_size kw [] acc = returnE acc"
| "online_iterations self batch_size kw (it # its) acc =
     bindE (train_step self batch_size None kw) (\<lambda>loss.
     online_iterations self batch_size kw its (acc @ [loss]))"

fun online_epochs ::
  "('w, 'i) trainer \<Rightarrow> int \<Rightarrow> int \<Rightarrow> bool \<Rightarrow> kwargs \<Rightarrow> int list \<Rightarrow> losses \<Rightarrow> (losses, 'w) action" where
  "online_epochs self iterations_per_epoch batch_size save_checkpoint kw [] losses = returnE losses"
| "online_epochs self iterations_per_epoch batch_size save_checkpoint kw (ep # eps) losses =
     bindE (online_iterations self batch_size kw [1..iterations_per_epoch] []) (\<lambda>ls.
     bindE (save_after_epoch self save_checkpoint) (\<lambda>_.
     online_epochs self iterations_per_epoch batch_size save_checkpoint kw eps (losses @ [(ep, ls)])))"

definition train_online ::
  "('w, 'i) trainer \<Rightarrow> int \<Rightarrow> int \<Rightarrow> int \<Rightarrow> bool \<Rightarrow> kwargs \<Rightarrow> (losses, 'w) action" where
  "train_online self epochs iterations_per_epoch batch_size save_checkpoint kw =
     online_epochs self iterations_per_epoch batch_size save_checkpoint kw [1..epochs] []"

text \<open>
  What \<^verbatim>\<open>trainers.py\<close> imports from the modules \<^verbatim>\<open>bayesflow.helper_classes\<close>,
  \<^verbatim>\<open>bayesflow.configuration\<close> and \<^verbatim>\<open>bayesflow.default_settings\<close>, taken as
  parameters: the \<^verbatim>\<open>SimulatedDataset\<close> helper (constructing it
  yields one pass over its batches, to be run once per epoch), the default configurator
  classes of \<^verbatim>\<open>bayesflow.configuration\<close>, applied to their \<^verbatim>\<open>transform_fun\<close> and
  \<^verbatim>\<open>combine_fun\<close>, and the text of the constant \<^verbatim>\<open>STRING_CONFIGS\<close>.
\<close>

datatype config_class =
  DefaultPosteriorConfigurator | DefaultLikelihoodConfigurator | DefaultJointConfigurator

datatype component =
    DefaultPosteriorCombiner | DefaultPosteriorTransformer
  | DefaultLikelihoodCombiner | DefaultLikelihoodTransformer
  | DefaultJointCombiner | DefaultJointTransformer
  | VariableObservationsTransformer | OneHotTransformer
  | TransformerUnion "component list"

record ('w, 'i) bayesflow =
  SimulatedDataset :: "sim_dict \<Rightarrow> int \<Rightarrow> ((sim_dict list, 'w) ext, 'w) ext"
  default_config :: "config_class \<Rightarrow> component \<Rightarrow> component \<Rightarrow> sim_dict \<Rightarrow> kwargs \<Rightarrow> ('i, 'w) ext"
  STRING_CONFIGS :: string

text \<open>\<^verbatim>\<open>Trainer.train_offline\<close>: the loop over the batches of the data set, and over the epochs.\<close>

fun offline_batches ::
  "('w, 'i) trainer \<Rightarrow> int \<Rightarrow> kwargs \<Rightarrow> sim_dict list \<Rightarrow> real list \<Rightarrow> (real list, 'w) action" where
  "offline_batches self batch_size kw [] acc = returnE acc"
| "offline_batches self batch_size kw (forward_dict # rest) acc =
     bindE (train_step self batch_size (Some forward_dict) kw) (\<lambda>loss.
     offline_batches self batch_size kw rest (acc @ [loss]))"

fun offline_epochs ::
  "('w, 'i) trainer \<Rightarrow> (sim_dict list, 'w) ext \<Rightarrow> int \<Rightarrow> bool \<Rightarrow> kwargs \<Rightarrow> int list \<Rightarrow> losses
     \<Rightarrow> (losses, 'w) action" where
  "offline_epochs self data_set batch_size save_checkpoint kw [] losses = returnE losses"
| "offline_epochs self data_set batch_size save_checkpoint kw (ep # eps) losses =
     bindE (call data_set) (\<lambda>batches.
     bindE (offline_batches self batch_size kw batches []) (\<lambda>ls.
     bindE (save_after_epoch self save_checkpoint) (\<lambda>_.
     offline_epochs self data_set batch_size save_checkpoint kw eps (losses @ [(ep, ls)]))))"

definition train_offline ::
  "('w, 'i) bayesflow \<Rightarrow> ('w, 'i) trainer \<Rightarrow> sim_dict \<Rightarrow> int \<Rightarrow> int \<Rightarrow> bool \<Rightarrow> kwargs
     \<Rightarrow> (losses, 'w) action" where
  "train_offline lib self simulations_dict epochs batch_size save_checkpoint kw =
     bindE (record_event (Offline simulations_dict)) (\<lambda>_.
     bindE (call (SimulatedDataset lib simulations_dict batch_size)) (\<lambda>data_set.
     offline_epochs self data_set batch_size save_checkpoint kw [1..epochs] []))"

text \<open>
  \<^verbatim>\<open>Trainer.train_rounds\<close>. The loop over the keys of the accumulated dictionary
  (a dictionary keeps its keys in insertion order, and the loop changes values only):
\<close>

fun concatenate_rounds :: "sim_dict \<Rightarrow> sim_dict \<Rightarrow> exn + sim_dict" where
  "concatenate_rounds [] simulations_dict_r = Inr []"
| "concatenate_rounds ((k, v) # rest) simulations_dict_r =
     (if v \<noteq> PNone then
        (case map_of simulations_dict_r k of
           None \<Rightarrow> Inl (Exn KeyError ([CHR 0x27] @ k @ [CHR 0x27]))
         | Some v_r \<Rightarrow>
            (case np_concatenate v v_r of
               Inl e \<Rightarrow> Inl e
             | Inr c \<Rightarrow>
                (case concatenate_rounds rest simulations_dict_r of
                   Inl e \<Rightarrow> Inl e
                 | Inr rest' \<Rightarrow> Inr ((k, c) # rest'))))
      else
        (case concatenate_rounds rest simulations_dict_r of
           Inl e \<Rightarrow> Inl e
         | Inr rest' \<Rightarrow> Inr ((k, v) # rest')))"

text \<open>
  The loop over the rounds; the dictionary accumulated so far is \<open>None\<close> as long as
  \<^verbatim>\<open>first_round\<close> is true.
\<close>

type_synonym round_losses = "(int \<times> losses) list"

fun rounds_loop ::
  "('w, 'i) bayesflow \<Rightarrow> ('w, 'i) trainer \<Rightarrow> int \<Rightarrow> int \<Rightarrow> int \<Rightarrow> bool \<Rightarrow> kwargs \<Rightarrow> int list
     \<Rightarrow> sim_dict option \<Rightarrow> round_losses \<Rightarrow> (round_losses, 'w) action" where
  "rounds_loop lib self sim_per_round epochs batch_size save_checkpoint kw [] cur losses =
     returnE losses"
| "rounds_loop lib self sim_per_round epochs batch_size save_checkpoint kw (r # rs) cur losses =
     bindE (case cur of
              None \<Rightarrow> forward_inference self sim_per_round kw
            | Some simulations_dict \<Rightarrow>
                bindE (forward_inference self sim_per_round kw) (\<lambda>simulations_dict_r.
                liftE (concatenate_rounds simulations_dict simulations_dict_r))) (\<lambda>simulations_dict.
     bindE (train_offline lib self simulations_dict epochs batch_size save_checkpoint kw) (\<lambda>losses_r.
     rounds_loop lib self sim_per_round epochs batch_size save_checkpoint kw rs
       (Some simulations_dict) (losses @ [(r, losses_r)])))"

definition train_rounds ::
  "('w, 'i) bayesflow \<Rightarrow> ('w, 'i) trainer \<Rightarrow> int \<Rightarrow> int \<Rightarrow> int \<Rightarrow> int \<Rightarrow> bool \<Rightarrow> kwargs
     \<Rightarrow> (round_losses, 'w) action" where
  "train_rounds lib self rounds sim_per_round epochs batch_size save_checkpoint kw =
     rounds_loop lib self sim_per_round epochs batch_size save_checkpoint kw [1..rounds] None []"

section \<open>Construction of a trainer\<close>

text \<open>
  The type of the amortizer, as \<^verbatim>\<open>type(self.amortizer)\<close> sees it (any other type with
  its printed form), and the \<^verbatim>\<open>configurator\<close> argument: a callable, a string,
  \<^verbatim>\<open>None\<close>, or a value of another type (with the printed form of that type).
\<close>

datatype amortizer_type =
  AmortizedPosterior | AmortizedLikelihood | JointAmortizer | OtherAmortizer string

datatype 'f config_arg = Callable 'f | Str string | NoneArg | OtherArg string

text \<open>The default configurator class, combiner and transformer for the amortizer's type.\<close>

fun default_components :: "amortizer_type \<Rightarrow> exn + config_class \<times> component \<times> component" where
  "default_components AmortizedPosterior =
     Inr (DefaultPosteriorConfigurator, DefaultPosteriorCombiner, DefaultPosteriorTransformer)"
| "default_components AmortizedLikelihood =
     Inr (DefaultLikelihoodConfigurator, DefaultLikelihoodTransformer, DefaultLikelihoodCombiner)"
| "default_components JointAmortizer =
     Inr (DefaultJointConfigurator, DefaultJointTransformer, DefaultJointCombiner)"
| "default_components (OtherAmortizer t) =
     Inl (Exn NotImplementedError
       (''Could not initialize configurator based on '' @ ''amortizer type '' @ t @ ''!''))"

text \<open>\<^verbatim>\<open>Trainer._manage_configurator\<close>\<close>

definition manage_configurator ::
  "('w, 'i) bayesflow \<Rightarrow> amortizer_type \<Rightarrow> (sim_dict \<Rightarrow> kwargs \<Rightarrow> ('i, 'w) ext) config_arg
     \<Rightarrow> exn + (sim_dict \<Rightarrow> kwargs \<Rightarrow> ('i, 'w) ext)" where
  "manage_configurator lib amortizer config_fun =
     (case config_fun of
        Callable f \<Rightarrow> Inr f
      | _ \<Rightarrow>
        (case default_components amortizer of
           Inl e \<Rightarrow> Inl e
         | Inr (default_cfg, default_combiner, default_transfomer) \<Rightarrow>
            (case config_fun of
               Str s \<Rightarrow>
                 if s = ''variable_num_obs'' then
                   Inr (default_config lib default_cfg VariableObservationsTransformer default_combiner)
                 else if s = ''one_hot'' then
                   Inr (default_config lib default_cfg OneHotTransformer default_combiner)
                 else if s = ''variable_num_obs_one_hot'' then
                   Inr (default_config lib default_cfg
                     (TransformerUnion [VariableObservationsTransformer, OneHotTransformer])
                     default_combiner)
                 else if s = ''one_hot_variable_num_obs'' then
                   Inr (default_config lib default_cfg
                     (TransformerUnion [OneHotTransformer, VariableObservationsTransformer])
                     default_combiner)
                 else
                   Inl (Exn NotImplementedError
                     (''Could not initialize configurator based on string'' @
                      ''argument should be in '' @ STRING_CONFIGS lib))
             | NoneArg \<Rightarrow> Inr (default_config lib default_cfg default_transfomer default_combiner)
             | OtherArg t \<Rightarrow>
                 Inl (Exn NotImplementedError
                   (''Could not infer configurator based on provided type: '' @ t))
             | Callable f \<Rightarrow> Inr f)))"

text \<open>
  \<^verbatim>\<open>Trainer._check_consistency\<close>: the body of its \<^verbatim>\<open>try\<close> block, one run of the
  generative model (two simulations), the configurator and the loss, and the method itself.
\<close>

definition consistency_run ::
  "('w, 'i) trainer \<Rightarrow> (int \<Rightarrow> kwargs \<Rightarrow> (sim_dict, 'w) ext) \<Rightarrow> (unit, 'w) action" where
  "consistency_run self g =
     bindE (invoke_generative_model g 2 []) (\<lambda>forward_dict.
     bindE (call (configurator self forward_dict [])) (\<lambda>input_dict.
     bindE (call (compute_loss self input_dict [])) (\<lambda>_.
     returnE ())))"

definition check_consistency :: "('w, 'i) trainer \<Rightarrow> (unit, 'w) action" where
  "check_consistency self =
     (case generative_model self of
        Some g \<Rightarrow>
          try_except_Exception (consistency_run self g)
            (\<lambda>err. raise (Exn ConfigurationError
               (''Could not carry out computations of generative_model ->'' @
                ''configurator -> amortizer -> loss! Error trace:'' @ [CHR 0x0A] @ '' '' @ exn_str err)))
      | None \<Rightarrow> returnE ())"

text \<open>
  \<^verbatim>\<open>Trainer.__init__\<close>. The optimizer argument stands for constructing the optimizer
  (\<^verbatim>\<open>Adam(learning_rate)\<close> or the one given), which yields the gradient step; the
  checkpoint argument is \<open>None\<close> when \<^verbatim>\<open>checkpoint_path\<close> is, and otherwise stands for
  creating the checkpoint and its manager and restoring the latest checkpoint, which
  yields the manager's \<^verbatim>\<open>save\<close>.
\<close>

definition Trainer_init ::
  "('w, 'i) bayesflow \<Rightarrow> amortizer_type \<Rightarrow> ('i \<Rightarrow> kwargs \<Rightarrow> (real, 'w) ext)
     \<Rightarrow> (int \<Rightarrow> kwargs \<Rightarrow> (sim_dict, 'w) ext) option
     \<Rightarrow> (sim_dict \<Rightarrow> kwargs \<Rightarrow> ('i, 'w) ext) config_arg
     \<Rightarrow> (real \<Rightarrow> (unit, 'w) ext, 'w) ext
     \<Rightarrow> ((unit, 'w) ext, 'w) ext option
     \<Rightarrow> bool \<Rightarrow> (('w, 'i) trainer, 'w) action" where
  "Trainer_init lib amortizer amortizer_loss gen_model config_fun optimizer checkpoint skip_checks =
     bindE (liftE (manage_configurator lib amortizer config_fun)) (\<lambda>cfg.
     bindE (call optimizer) (\<lambda>step.
     bindE (case checkpoint of
              Some restore \<Rightarrow> bindE (call restore) (\<lambda>save. returnE (Some save))
            | None \<Rightarrow> returnE None) (\<lambda>mgr.
     bindE (if \<not> skip_checks
            then check_consistency
                   \<lparr>compute_loss = amortizer_loss, apply_gradients = step,
                    generative_model = gen_model, configurator = cfg, manager = mgr\<rparr>
            else returnE ()) (\<lambda>_.
     returnE \<lparr>compute_loss = amortizer_loss, apply_gradients = step,
              generative_model = gen_model, configurator = cfg, manager = mgr\<rparr>))))"

section \<open>Round-based training, as described\<close>

text \<open>
  The rows that a batch holds under a key (none if the key is missing or its value is not
  an array), and the concatenation along axis 0 of a sequence of batches: the entries of
  the first batch, each array extended by the rows that the later batches hold under its
  key; an entry that is not an array stays as it is.
\<close>

definition rows_at :: "sim_dict \<Rightarrow> string \<Rightarrow> real list list" where
  "rows_at b k = (case map_of b k of Some (NDArray sh rows) \<Rightarrow> rows | _ \<Rightarrow> [])"

fun extend_entry :: "sim_dict list \<Rightarrow> string \<times> pyval \<Rightarrow> string \<times> pyval" where
  "extend_entry later (k, NDArray sh rows) =
     (k, NDArray sh (rows @ concat (map (\<lambda>b. rows_at b k) later)))"
| "extend_entry later (k, v) = (k, v)"

fun concatenation :: "sim_dict list \<Rightarrow> sim_dict" where
  "concatenation [] = []"
| "concatenation (b # later) = map (extend_entry later) b"

text \<open>
  What round-based training is to leave in the record of events, given the batches that
  came before and the batches that the rounds simulate: round after round one simulation
  of \<open>sim_per_round\<close>, then offline training on the concatenation of all batches so far.
\<close>

fun expected_rounds :: "int \<Rightarrow> sim_dict list \<Rightarrow> sim_dict list \<Rightarrow> event list" where
  "expected_rounds n prev [] = []"
| "expected_rounds n prev (b # rest) =
     Simulate n (Inr b) # Offline (concatenation (prev @ [b])) # expected_rounds n (prev @ [b]) rest"

text \<open>A dictionary each of whose entries is \<^verbatim>\<open>None\<close> or an array of \<open>n\<close> rows.\<close>

fun holds_samples :: "int \<Rightarrow> pyval \<Rightarrow> bool" where
  "holds_samples n PNone = True"
| "holds_samples n (Scalar x) = False"
| "holds_samples n (NDArray sh rows) = (int (length rows) = n)"

definition batch_of :: "int \<Rightarrow> sim_dict \<Rightarrow> bool" where
  "batch_of n b = (\<forall>(k, v) \<in> set b. holds_samples n v)"

text \<open>
  An entry of the accumulated dictionary fits a new batch when it is \<^verbatim>\<open>None\<close>, or an
  array for which the batch holds an array of the same row shape under the same key.
\<close>

fun fits :: "sim_dict \<Rightarrow> string \<times> pyval \<Rightarrow> bool" where
  "fits b (k, PNone) = True"
| "fits b (k, Scalar x) = False"
| "fits b (k, NDArray sh rows) =
     (case map_of b k of Some (NDArray sh' rows') \<Rightarrow> sh' = sh | _ \<Rightarrow> False)"

text \<open>
  The dictionaries that offline training was entered with, in order; and the relation
  between an accumulated dictionary and a later one: the same keys in the same order,
  \<^verbatim>\<open>None\<close> still \<^verbatim>\<open>None\<close>, an array still an array of that row shape that begins with the
  same rows (a zero-dimensional entry cannot be extended).
\<close>

fun offline_calls :: "event list \<Rightarrow> sim_dict list" where
  "offline_calls [] = []"
| "offline_calls (Offline d # evs) = d # offline_calls evs"
| "offline_calls (Simulate n r # evs) = offline_calls evs"

fun entry_extended :: "pyval \<Rightarrow> pyval \<Rightarrow> bool" where
  "entry_extended PNone v' = (v' = PNone)"
| "entry_extended (Scalar x) v' = False"
| "entry_extended (NDArray sh rows) v' =
     (case v' of NDArray sh' rows' \<Rightarrow> sh' = sh \<and> prefix rows rows' | _ \<Rightarrow> False)"

definition only_extended :: "sim_dict \<Rightarrow> sim_dict \<Rightarrow> bool" where
  "only_extended d d' =
     (map fst d' = map fst d \<and> list_all2 entry_extended (map snd d) (map snd d'))"

fun successively_extended :: "sim_dict option \<Rightarrow> sim_dict list \<Rightarrow> bool" where
  "successively_extended cur [] = True"
| "successively_extended None (d # ds) = successively_extended (Some d) ds"
| "successively_extended (Some c) (d # ds) = (only_extended c d \<and> successively_extended (Some d) ds)"

section \<open>The affine coupling layer\<close>

text \<open>
  Modelled from the spec: a parameter vector or a condition vector of one sample; the
  tensors of the missing \<^verbatim>\<open>bayesflow/coupling_networks.py\<close> over the reals (rounding is not
  modelled).
\<close>

type_synonym vec = "real list"

text \<open>
  Modelled from the spec: the errors with which the missing layer is to fail fast, on an input
  whose dimension is not \<^verbatim>\<open>n_params\<close>, on a condition given to an unconditional layer or
  missing from a conditional one or of the wrong dimension, and on a condition batch of
  another size than the input batch.
\<close>

datatype shape_error =
  InputDimension | ConditionUnexpected | ConditionMissing | ConditionDimension | BatchSize

text \<open>
  Modelled from the spec: the state of the missing class \<^verbatim>\<open>AffineCouplingLayer\<close>: the declared
  dimensions, the scale and translation predictors (functions of the untouched half and the
  condition), the soft clamp applied to predicted scales, and the optional permutation and
  activation normalization (per-channel scale and bias), \<open>None\<close> when absent.
\<close>

record coupling_layer =
  n_params :: nat
  condition_dim :: "nat option"
  network_s :: "vec \<Rightarrow> vec option \<Rightarrow> vec"
  network_t :: "vec \<Rightarrow> vec option \<Rightarrow> vec"
  soft_clamp :: "real \<Rightarrow> real"
  permutation :: "nat list option"
  act_norm :: "(vec \<times> vec) option"

text \<open>
  Modelled from the spec: the settings dictionary \<^verbatim>\<open>meta\<close> that the missing constructor
  receives, together with what construction creates from it: the two networks, the clamp, the
  permutation that is drawn and the initial parameters of the activation normalization.
\<close>

record meta =
  meta_n_params :: nat
  meta_condition_dim :: "nat option"
  use_permutation :: bool
  use_act_norm :: bool
  s_net :: "vec \<Rightarrow> vec option \<Rightarrow> vec"
  t_net :: "vec \<Rightarrow> vec option \<Rightarrow> vec"
  clamp :: "real \<Rightarrow> real"
  drawn_permutation :: "nat list"
  initial_act_norm :: "vec \<times> vec"

text \<open>
  Modelled from the spec: the missing constructor; the optional sub-layers exist exactly when
  they are enabled.
\<close>

definition AffineCouplingLayer :: "meta \<Rightarrow> coupling_layer" where
  "AffineCouplingLayer m =
     \<lparr>n_params = meta_n_params m, condition_dim = meta_condition_dim m,
      network_s = s_net m, network_t = t_net m, soft_clamp = clamp m,
      permutation = (if use_permutation m then Some (drawn_permutation m) else None),
      act_norm = (if use_act_norm m then Some (initial_act_norm m) else None)\<rparr>"

text \<open>
  Modelled from the spec: the missing check of one sample against the declared dimensions
  (section 4.1, error conditions).
\<close>

definition check_shapes :: "coupling_layer \<Rightarrow> vec \<Rightarrow> vec option \<Rightarrow> shape_error option" where
  "check_shapes L x c =
     (if length x \<noteq> n_params L then Some InputDimension
      else case (condition_dim L, c) of
             (None, None) \<Rightarrow> None
           | (None, Some cv) \<Rightarrow> Some ConditionUnexpected
           | (Some d, None) \<Rightarrow> Some ConditionMissing
           | (Some d, Some cv) \<Rightarrow> if length cv \<noteq> d then Some ConditionDimension else None)"

text \<open>
  Modelled from the spec: the missing affine map of the transformed half,
  \<^verbatim>\<open>x2 * exp(s) + t\<close> elementwise.
\<close>

definition affine :: "vec \<Rightarrow> vec \<Rightarrow> vec \<Rightarrow> vec" where
  "affine x s t = map (\<lambda>(xi, si, ti). xi * exp si + ti) (zip x (zip s t))"

text \<open>
  Modelled from the spec: its missing inverse, \<^verbatim>\<open>(z2 - t) * exp(-s)\<close> elementwise.
\<close>

definition affine_inverse :: "vec \<Rightarrow> vec \<Rightarrow> vec \<Rightarrow> vec" where
  "affine_inverse z s t = map (\<lambda>(zi, si, ti). (zi - ti) * exp (- si)) (zip z (zip s t))"

text \<open>
  Modelled from the spec: the missing scale prediction, soft-clamped before exponentiation.
\<close>

definition scales :: "coupling_layer \<Rightarrow> vec \<Rightarrow> vec option \<Rightarrow> vec" where
  "scales L x1 c = map (soft_clamp L) (network_s L x1 c)"

text \<open>
  Modelled from the spec: the missing coupling transform of one sample: the input is split at
  half its declared dimension, the first half passes unchanged and predicts scale and
  translation for the second; the log-determinant is the sum of the scales.
\<close>

definition coupling_forward :: "coupling_layer \<Rightarrow> vec \<Rightarrow> vec option \<Rightarrow> vec \<times> real" where
  "coupling_forward L x c =
     (let x1 = take (n_params L div 2) x; x2 = drop (n_params L div 2) x;
          s = scales L x1 c; t = network_t L x1 c
      in (x1 @ affine x2 s t, sum_list s))"

text \<open>
  Modelled from the spec: the missing inverse coupling transform; scale and translation are
  predicted from the untouched half again.
\<close>

definition coupling_inverse :: "coupling_layer \<Rightarrow> vec \<Rightarrow> vec option \<Rightarrow> vec" where
  "coupling_inverse L z c =
     (let z1 = take (n_params L div 2) z; z2 = drop (n_params L div 2) z;
          s = scales L z1 c; t = network_t L z1 c
      in z1 @ affine_inverse z2 s t)"

text \<open>
  Modelled from the spec: the missing permutation of dimensions.
\<close>

definition permute :: "nat list \<Rightarrow> vec \<Rightarrow> vec" where
  "permute p x = map (\<lambda>i. x ! i) p"

text \<open>
  Modelled from the spec: the place of a dimension in the missing permutation.
\<close>

fun position :: "nat list \<Rightarrow> nat \<Rightarrow> nat" where
  "position [] i = 0"
| "position (j # p) i = (if j = i then 0 else Suc (position p i))"

text \<open>
  Modelled from the spec: the inverse of the missing permutation.
\<close>

definition unpermute :: "nat list \<Rightarrow> vec \<Rightarrow> vec" where
  "unpermute p z = map (\<lambda>i. z ! position p i) [0..<length p]"

text \<open>
  Modelled from the spec: the missing activation normalization, a per-channel affine map,
  with its log-determinant.
\<close>

definition act_norm_forward :: "vec \<times> vec \<Rightarrow> vec \<Rightarrow> vec \<times> real" where
  "act_norm_forward ab x =
     (map (\<lambda>(xi, a, b). a * xi + b) (zip x (zip (fst ab) (snd ab))),
      sum_list (map (\<lambda>a. ln \<bar>a\<bar>) (fst ab)))"

text \<open>
  Modelled from the spec: the inverse of the missing activation normalization.
\<close>

definition act_norm_inverse :: "vec \<times> vec \<Rightarrow> vec \<Rightarrow> vec" where
  "act_norm_inverse ab z = map (\<lambda>(zi, a, b). (zi - b) / a) (zip z (zip (fst ab) (snd ab)))"

text \<open>
  Modelled from the spec: the optional stages of the missing layer before the coupling:
  activation normalization, then permutation, with their log-determinant.
\<close>

definition pre_forward :: "coupling_layer \<Rightarrow> vec \<Rightarrow> vec \<times> real" where
  "pre_forward L x =
     (let (xa, ja) = (case act_norm L of Some ab \<Rightarrow> act_norm_forward ab x | None \<Rightarrow> (x, 0))
      in (case permutation L of Some p \<Rightarrow> permute p xa | None \<Rightarrow> xa, ja))"

text \<open>
  Modelled from the spec: the optional stages of the missing layer undone, in reverse order.
\<close>

definition pre_inverse :: "coupling_layer \<Rightarrow> vec \<Rightarrow> vec" where
  "pre_inverse L xp =
     (let xa = (case permutation L of Some p \<Rightarrow> unpermute p xp | None \<Rightarrow> xp)
      in case act_norm L of Some ab \<Rightarrow> act_norm_inverse ab xa | None \<Rightarrow> xa)"

text \<open>
  Modelled from the spec: the missing transform of one sample, with the log-determinants of
  its stages summed.
\<close>

definition transform :: "coupling_layer \<Rightarrow> vec \<Rightarrow> vec option \<Rightarrow> vec \<times> real" where
  "transform L x c =
     (let (xp, jp) = pre_forward L x; (z, js) = coupling_forward L xp c in (z, jp + js))"

text \<open>
  Modelled from the spec: the missing forward pass on one sample, failing fast on a shape error.
\<close>

definition forward_sample :: "coupling_layer \<Rightarrow> vec \<Rightarrow> vec option \<Rightarrow> shape_error + vec \<times> real" where
  "forward_sample L x c =
     (case check_shapes L x c of Some e \<Rightarrow> Inl e | None \<Rightarrow> Inr (transform L x c))"

text \<open>
  Modelled from the spec: the missing inverse pass on one sample, failing fast on a shape error.
\<close>

definition inverse_sample :: "coupling_layer \<Rightarrow> vec \<Rightarrow> vec option \<Rightarrow> shape_error + vec" where
  "inverse_sample L z c =
     (case check_shapes L z c of
        Some e \<Rightarrow> Inl e
      | None \<Rightarrow> Inr (pre_inverse L (coupling_inverse L z c)))"

text \<open>
  Modelled from the spec: the results of the samples of a batch, the first error if there is
  one (the missing batched operations).
\<close>

fun collect :: "('e + 'a) list \<Rightarrow> 'e + 'a list" where
  "collect [] = Inr []"
| "collect (r # rs) =
     (case r of
        Inl e \<Rightarrow> Inl e
      | Inr y \<Rightarrow> (case collect rs of Inl e \<Rightarrow> Inl e | Inr ys \<Rightarrow> Inr (y # ys)))"

text \<open>
  Modelled from the spec: the condition of each sample of a batch of the missing layer.
\<close>

definition condition_rows :: "nat \<Rightarrow> vec list option \<Rightarrow> shape_error + vec option list" where
  "condition_rows n condition =
     (case condition of
        None \<Rightarrow> Inr (replicate n None)
      | Some cs \<Rightarrow> if length cs \<noteq> n then Inl BatchSize else Inr (map Some cs))"

text \<open>
  Modelled from the spec: the missing \<^verbatim>\<open>forward(x, condition)\<close> on a batch: the transformed
  batch and one log-determinant per sample.
\<close>

definition forward_pass ::
  "coupling_layer \<Rightarrow> vec list \<Rightarrow> vec list option \<Rightarrow> shape_error + vec list \<times> real list" where
  "forward_pass L x condition =
     (case condition_rows (length x) condition of
        Inl e \<Rightarrow> Inl e
      | Inr cs \<Rightarrow>
          (case collect (map (\<lambda>(xi, ci). forward_sample L xi ci) (zip x cs)) of
             Inl e \<Rightarrow> Inl e
           | Inr zs \<Rightarrow> Inr (map fst zs, map snd zs)))"

text \<open>
  Modelled from the spec: the missing \<^verbatim>\<open>inverse(z, condition)\<close> on a batch.
\<close>

definition inverse_pass ::
  "coupling_layer \<Rightarrow> vec list \<Rightarrow> vec list option \<Rightarrow> shape_error + vec list" where
  "inverse_pass L z condition =
     (case condition_rows (length z) condition of
        Inl e \<Rightarrow> Inl e
      | Inr cs \<Rightarrow> collect (map (\<lambda>(zi, ci). inverse_sample L zi ci) (zip z cs)))"

text \<open>
  Modelled from the spec: what the missing layer holds by construction: networks that
  predict one scale and one translation per transformed dimension, a permutation of the
  declared dimensions, and an invertible activation normalization over them.
\<close>

definition valid_layer :: "coupling_layer \<Rightarrow> bool" where
  "valid_layer L =
     ((\<forall>x1 c. length (network_s L x1 c) = n_params L - n_params L div 2)
    \<and> (\<forall>x1 c. length (network_t L x1 c) = n_params L - n_params L div 2)
    \<and> (case permutation L of
          Some p \<Rightarrow> length p = n_params L \<and> set p = {0..<n_params L}
        | None \<Rightarrow> True)
    \<and> (case act_norm L of
          Some (a, b) \<Rightarrow> length a = n_params L \<and> length b = n_params L \<and> 0 \<notin> set a
        | None \<Rightarrow> True))"

text \<open>
  Modelled from the spec: a batch and a condition of the declared dimensionality of the
  missing layer.
\<close>

definition matching :: "coupling_layer \<Rightarrow> vec list \<Rightarrow> vec list option \<Rightarrow> bool" where
  "matching L x condition =
     ((\<forall>xi \<in> set x. length xi = n_params L)
    \<and> (case (condition_dim L, condition) of
          (None, None) \<Rightarrow> True
        | (Some d, Some cs) \<Rightarrow> length cs = length x \<and> (\<forall>ci \<in> set cs. length ci = d)
        | (None, Some cs) \<Rightarrow> False
        | (Some d, None) \<Rightarrow> False))"

text \<open>
  Modelled from the spec: the condition of sample \<open>i\<close> of a batch of the missing layer.
\<close>

definition condition_row :: "vec list option \<Rightarrow> nat \<Rightarrow> vec option" where
  "condition_row condition i = (case condition of None \<Rightarrow> None | Some cs \<Rightarrow> Some (cs ! i))"

section \<open>Auxiliary notions\<close>

text \<open>An action is quiet when it leaves the record of events as it is.\<close>

definition quiet :: "('a, 'w) action \<Rightarrow> bool" where
  "quiet m = (\<forall>w r w'. m w = (r, w') \<longrightarrow> events w' = events w)"

text \<open>A collaborator, or an action, all of whose exceptions satisfy \<open>P\<close>.\<close>

definition ext_raises_only :: "(exn \<Rightarrow> bool) \<Rightarrow> ('a, 'w) ext \<Rightarrow> bool" where
  "ext_raises_only P f = (\<forall>e err e'. f e = (Inl err, e') \<longrightarrow> P err)"

definition raises_only :: "(exn \<Rightarrow> bool) \<Rightarrow> ('a, 'w) action \<Rightarrow> bool" where
  "raises_only P m = (\<forall>w err w'. m w = (Inl err, w') \<longrightarrow> P err)"

text \<open>
  Everything that offline training calls raises only exceptions that satisfy \<open>P\<close>: the
  configurator, the loss, the gradient step, the checkpoint manager, the data set and
  its iteration, and the unpacking of \<^verbatim>\<open>conf_args\<close> and \<^verbatim>\<open>net_args\<close>.
\<close>

definition collaborators_raise_only ::
  "(exn \<Rightarrow> bool) \<Rightarrow> ('w, 'i) bayesflow \<Rightarrow> ('w, 'i) trainer \<Rightarrow> sim_dict \<Rightarrow> int \<Rightarrow> kwargs \<Rightarrow> bool" where
  "collaborators_raise_only P lib self simulations_dict batch_size kw =
     ((\<forall>d ca. ext_raises_only P (configurator self d ca))
    \<and> (\<forall>i na. ext_raises_only P (compute_loss self i na))
    \<and> (\<forall>l. ext_raises_only P (apply_gradients self l))
    \<and> (\<forall>save. manager self = Some save \<longrightarrow> ext_raises_only P save)
    \<and> ext_raises_only P (SimulatedDataset lib simulations_dict batch_size)
    \<and> (\<forall>e data_set e'. SimulatedDataset lib simulations_dict batch_size e = (Inr data_set, e')
          \<longrightarrow> ext_raises_only P data_set)
    \<and> (\<forall>err. pop_args ''conf_args'' kw = Inl err \<longrightarrow> P err)
    \<and> (\<forall>err. pop_args ''net_args'' kw = Inl err \<longrightarrow> P err))"

section \<open>A small instance\<close>

text \<open>
  Collaborators over a counter as opaque state, on which the theorems below are
  exercised: a generative model that returns two arrays and a context (absent in its
  first call only) and advances the counter, one that is interrupted, a configurator that passes the
  simulations on, a constant loss, and a data set that yields one batch.
\<close>

definition example_model :: "int \<Rightarrow> kwargs \<Rightarrow> (sim_dict, nat) ext" where
  "example_model n_sim kw e =
     (Inr [(''prior_draws'', NDArray [1] (replicate (nat n_sim) [real e])),
           (''sim_data'', NDArray [2] (replicate (nat n_sim) [0, 1])),
           (''sim_non_batchable_context'',
              if e = 0 then PNone else NDArray [1] (replicate (nat n_sim) [7]))], Suc e)"



definition example_configurator :: "sim_dict \<Rightarrow> kwargs \<Rightarrow> (sim_dict, nat) ext" where
  "example_configurator d kw e = (Inr d, e)"

definition example_loss :: "sim_dict \<Rightarrow> kwargs \<Rightarrow> (real, nat) ext" where
  "example_loss d kw e = (Inr 1, e)"

definition example_step :: "real \<Rightarrow> (unit, nat) ext" where
  "example_step l e = (Inr (), e)"

definition example_pass :: "sim_dict \<Rightarrow> (sim_dict list, nat) ext" where
  "example_pass d e = (Inr [d], e)"

definition example_dataset :: "sim_dict \<Rightarrow> int \<Rightarrow> ((sim_dict list, nat) ext, nat) ext" where
  "example_dataset d batch_size e = (Inr (example_pass d), e)"

definition example_default_config ::
  "config_class \<Rightarrow> component \<Rightarrow> component \<Rightarrow> sim_dict \<Rightarrow> kwargs \<Rightarrow> (sim_dict, nat) ext" where
  "example_default_config c t b = example_configurator"

definition example_lib :: "(nat, sim_dict) bayesflow" where
  "example_lib =
     \<lparr>SimulatedDataset = example_dataset, default_config = example_default_config,
      STRING_CONFIGS = ''[variable_num_obs, one_hot, variable_num_obs_one_hot, one_hot_variable_num_obs]''\<rparr>"

definition example_trainer ::
  "(int \<Rightarrow> kwargs \<Rightarrow> (sim_dict, nat) ext) option \<Rightarrow> (nat, sim_dict) trainer" where
  "example_trainer g =
     \<lparr>compute_loss = example_loss, apply_gradients = example_step,
      generative_model = g, configurator = example_configurator, manager = None\<rparr>"

definition example_optimizer :: "(real \<Rightarrow> (unit, nat) ext, nat) ext" where
  "example_optimizer e = (Inr example_step, e)"

definition start :: "nat world" where
  "start = \<lparr>env = 0, events = []\<rparr>"

text \<open>The two batches that the example model simulates first, and their concatenation.\<close>

definition first_batch :: sim_dict where
  "first_batch =
     [(''prior_draws'', NDArray [1] [[0], [0]]),
      (''sim_data'', NDArray [2] [[0, 1], [0, 1]]),
      (''sim_non_batchable_context'', PNone)]"

definition second_batch :: sim_dict where
  "second_batch =
     [(''prior_draws'', NDArray [1] [[1], [1]]),
      (''sim_data'', NDArray [2] [[0, 1], [0, 1]]),
      (''sim_non_batchable_context'', NDArray [1] [[7], [7]])]"

definition both_batches :: sim_dict where
  "both_batches =
     [(''prior_draws'', NDArray [1] [[0], [0], [1], [1]]),
      (''sim_data'', NDArray [2] [[0, 1], [0, 1], [0, 1], [0, 1]]),
      (''sim_non_batchable_context'', PNone)]"

text \<open>
  A layer of three parameters with a condition of one dimension, a permutation and an
  activation normalization.
\<close>

definition example_s_net :: "vec \<Rightarrow> vec option \<Rightarrow> vec" where
  "example_s_net x1 c = [0, 0]"

definition example_t_net :: "vec \<Rightarrow> vec option \<Rightarrow> vec" where
  "example_t_net x1 c = [sum_list x1 + (case c of Some cv \<Rightarrow> sum_list cv | None \<Rightarrow> 0), 1]"

definition example_meta :: meta where
  "example_meta =
     \<lparr>meta_n_params = 3, meta_condition_dim = Some 1, use_permutation = True, use_act_norm = True,
      s_net = example_s_net, t_net = example_t_net, clamp = (\<lambda>s. s),
      drawn_permutation = [2, 0, 1], initial_act_norm = ([2, 1, 1], [0, 1, 0])\<rparr>"

section \<open>Sequencing\<close>

lemma bindE_returnE: "bindE (returnE x) f = f x"
  by (rule ext) (simp add: bindE_def returnE_def)

lemma bindE_raise: "bindE (raise e) f = raise e"
  by (rule ext) (simp add: bindE_def raise_def)

lemma bindE_liftE_Inr: "bindE (liftE (Inr x)) f = f x"
  by (rule ext) (simp add: bindE_def liftE_def)

lemma bindE_liftE_Inl: "bindE (liftE (Inl e)) f = raise e"
  by (rule ext) (simp add: bindE_def liftE_def raise_def)

lemma bindE_cases:
  assumes "bindE m f w = (r, w'')"
  obtains (fails) e where "m w = (Inl e, w'')" and "r = Inl e"
        | (continues) x w' where "m w = (Inr x, w')" and "f x w' = (r, w'')"
  using assms by (auto simp: bindE_def split: prod.splits sum.splits)

lemmas monad_simps = bindE_returnE bindE_raise bindE_liftE_Inr bindE_liftE_Inl

lemma upto_pos_Cons: "0 < n \<Longrightarrow> [1..n] = 1 # [2..n]"
  by (simp add: upto_rec1)

section \<open>Simulation without a generative model\<close>

text \<open>
  C3. A trainer without a generative model raises the dedicated \<^verbatim>\<open>SimulationError\<close>
  whenever a simulation is asked for: in \<^verbatim>\<open>_forward_inference\<close> itself, in online
  training with at least one epoch and one iteration (the \<^verbatim>\<open>model_args\<close>, if given, being
  a mapping), and in round-based training with at least one round. The state is returned
  as it was: nothing was invoked and nothing recorded.
\<close>

theorem simulation_without_generative_model:
  assumes "generative_model self = None"
  shows "forward_inference self n_sim kw w =
           (Inl (Exn SimulationError ''No generative model specified. Only offline learning is available!''), w)
       \<and> (0 < epochs \<and> 0 < iterations_per_epoch \<and> pop_args ''model_args'' kw = Inr model_args \<longrightarrow>
            train_online self epochs iterations_per_epoch batch_size save_checkpoint kw w =
              (Inl (Exn SimulationError ''No generative model specified. Only offline learning is available!''), w))
       \<and> (0 < rounds \<longrightarrow>
            train_rounds lib self rounds sim_per_round epochs batch_size save_checkpoint kw w =
              (Inl (Exn SimulationError ''No generative model specified. Only offline learning is available!''), w))"
proof -
  let ?err = "Exn SimulationError ''No generative model specified. Only offline learning is available!''"
  have fi: "forward_inference self n kw' = raise ?err" for n kw'
    using assms by (simp add: forward_inference_def)
  have step: "train_step self batch_size None kw = raise ?err"
    if "pop_args ''model_args'' kw = Inr model_args"
    using that by (simp add: train_step_def fi monad_simps)
  have online: "train_online self epochs iterations_per_epoch batch_size save_checkpoint kw w = (Inl ?err, w)"
    if "0 < epochs" "0 < iterations_per_epoch" "pop_args ''model_args'' kw = Inr model_args"
    using that by (simp add: train_online_def upto_pos_Cons step monad_simps raise_def)
  have rounds: "train_rounds lib self rounds sim_per_round epochs batch_size save_checkpoint kw w = (Inl ?err, w)"
    if "0 < rounds"
    using that by (simp add: train_rounds_def upto_pos_Cons fi monad_simps raise_def)
  show ?thesis
    using online rounds by (simp add: fi raise_def)
qed

theorem simulation_without_generative_model_witness:
  "generative_model (example_trainer None) = None
   \<and> forward_inference (example_trainer None) 2 [] start =
       (Inl (Exn SimulationError ''No generative model specified. Only offline learning is available!''), start)
   \<and> (0 < (1::int) \<and> 0 < (1::int) \<and> pop_args ''model_args'' [] = Inr [])
   \<and> train_online (example_trainer None) 1 1 2 False [] start =
       (Inl (Exn SimulationError ''No generative model specified. Only offline learning is available!''), start)
   \<and> train_rounds example_lib (example_trainer None) 1 2 1 2 False [] start =
       (Inl (Exn SimulationError ''No generative model specified. Only offline learning is available!''), start)"
proof -
  have none: "generative_model (example_trainer None) = None"
    by (simp add: example_trainer_def)
  have args: "pop_args ''model_args'' [] = Inr []"
    by (simp add: pop_args_def)
  show ?thesis
    using simulation_without_generative_model [OF none,
        where n_sim = 2 and kw = "[]" and w = start and epochs = 1 and iterations_per_epoch = 1
          and model_args = "[]" and batch_size = 2 and save_checkpoint = False and rounds = 1
          and lib = example_lib and sim_per_round = 2]
      none args
    by simp
qed

section \<open>Configuration errors at construction\<close>

lemma default_components_error:
  "default_components a = Inl e \<Longrightarrow> \<exists>msg. e = Exn NotImplementedError msg"
  by (cases a) auto

text \<open>
  C4. Constructing a trainer raises \<^verbatim>\<open>NotImplementedError\<close> at once, before the
  optimizer, the checkpoint or the consistency check are touched (the state is returned
  as it was), when the configurator is a string other than the four supported ones, or when
  it is \<^verbatim>\<open>None\<close> or a string and the amortizer has none of the three known types.
\<close>

theorem unsupported_configuration_fails:
  assumes "(config_fun = Str s \<and> s \<notin> {''variable_num_obs'', ''one_hot'',
               ''variable_num_obs_one_hot'', ''one_hot_variable_num_obs''})
         \<or> ((config_fun = NoneArg \<or> config_fun = Str s) \<and> amortizer = OtherAmortizer t)"
  shows "\<exists>msg. Trainer_init lib amortizer amortizer_loss gen_model config_fun optimizer checkpoint skip_checks w
           = (Inl (Exn NotImplementedError msg), w)"
proof -
  have "\<exists>msg. manage_configurator lib amortizer config_fun = Inl (Exn NotImplementedError msg)"
    using assms
    by (cases "default_components amortizer")
       (auto simp: manage_configurator_def dest: default_components_error)
  then show ?thesis
    by (auto simp: Trainer_init_def monad_simps raise_def)
qed

theorem unsupported_configuration_fails_witness:
  "''two_hot'' \<notin> {''variable_num_obs'', ''one_hot'', ''variable_num_obs_one_hot'', ''one_hot_variable_num_obs''}
   \<and> (\<exists>msg. Trainer_init example_lib AmortizedPosterior example_loss None (Str ''two_hot'')
               example_optimizer None False start
             = (Inl (Exn NotImplementedError msg), start))"
  using unsupported_configuration_fails [where config_fun = "Str ''two_hot''" and s = "''two_hot''"
      and amortizer = AmortizedPosterior and lib = example_lib and amortizer_loss = example_loss
      and gen_model = None and optimizer = example_optimizer and checkpoint = None
      and skip_checks = False and w = start]
  by simp

section \<open>The consistency check\<close>




section \<open>Offline training\<close>

lemma quiet_returnE: "quiet (returnE x)"
  by (simp add: quiet_def returnE_def)

lemma quiet_raise: "quiet (raise e)"
  by (simp add: quiet_def raise_def)

lemma quiet_liftE: "quiet (liftE r)"
  by (simp add: quiet_def liftE_def)

lemma quiet_call: "quiet (call f)"
  by (auto simp: quiet_def call_def split: prod.splits)

lemma quiet_bindE: "quiet m \<Longrightarrow> (\<And>x. quiet (f x)) \<Longrightarrow> quiet (bindE m f)"
  unfolding quiet_def bindE_def
  by (auto split: prod.splits sum.splits)

lemmas quiet_intros = quiet_bindE quiet_returnE quiet_raise quiet_liftE quiet_call

lemma quiet_backprop_step: "quiet (backprop_step self i kw)"
  unfolding backprop_step_def by (intro quiet_intros)

lemma quiet_train_step: "quiet (train_step self bs (Some d) kw)"
  unfolding train_step_def by (simp, intro quiet_intros quiet_backprop_step)

lemma quiet_save_after_epoch: "quiet (save_after_epoch self sv)"
  unfolding save_after_epoch_def by (auto split: option.splits intro: quiet_intros)

lemma quiet_offline_batches: "quiet (offline_batches self bs kw ds acc)"
  by (induction ds arbitrary: acc) (auto intro!: quiet_intros quiet_train_step)

lemma quiet_offline_epochs: "quiet (offline_epochs self data_set bs sv kw eps losses)"
  by (induction eps arbitrary: losses)
     (auto intro!: quiet_intros quiet_offline_batches quiet_save_after_epoch)

lemma train_offline_events:
  assumes "train_offline lib self sd epochs bs sv kw w = (res, w')"
  shows "events w' = events w @ [Offline sd]"
proof -
  have q: "quiet (bindE (call (SimulatedDataset lib sd bs)) (\<lambda>data_set.
             offline_epochs self data_set bs sv kw [1..epochs] []))"
    by (intro quiet_intros quiet_offline_epochs)
  from assms obtain w1 where "w1 = w\<lparr>events := events w @ [Offline sd]\<rparr>"
    and "bindE (call (SimulatedDataset lib sd bs)) (\<lambda>data_set.
             offline_epochs self data_set bs sv kw [1..epochs] []) w1 = (res, w')"
    unfolding train_offline_def by (simp add: bindE_def record_event_def)
  with q show ?thesis
    by (auto simp: quiet_def)
qed

text \<open>Offline training does not read the trainer's generative model.\<close>

lemma train_step_given:
  "train_step (self\<lparr>generative_model := g\<rparr>) bs (Some d) kw = train_step self bs (Some d) kw"
  by (simp add: train_step_def backprop_step_def)

lemma save_after_epoch_model:
  "save_after_epoch (self\<lparr>generative_model := g\<rparr>) sv = save_after_epoch self sv"
  by (simp add: save_after_epoch_def)

lemma offline_batches_model:
  "offline_batches (self\<lparr>generative_model := g\<rparr>) bs kw ds acc = offline_batches self bs kw ds acc"
  by (induction ds arbitrary: acc) (simp_all add: train_step_given)

lemma offline_epochs_model:
  "offline_epochs (self\<lparr>generative_model := g\<rparr>) data_set bs sv kw eps losses =
   offline_epochs self data_set bs sv kw eps losses"
  by (induction eps arbitrary: losses) (simp_all add: offline_batches_model save_after_epoch_model)

lemma train_offline_model:
  "train_offline lib (self\<lparr>generative_model := g\<rparr>) sd epochs bs sv kw =
   train_offline lib self sd epochs bs sv kw"
  by (simp add: train_offline_def offline_epochs_model)

text \<open>Where the exceptions of offline training come from.\<close>

lemma raises_only_returnE: "raises_only P (returnE x)"
  by (simp add: raises_only_def returnE_def)

lemma raises_only_call: "ext_raises_only P f \<Longrightarrow> raises_only P (call f)"
  by (auto simp: raises_only_def ext_raises_only_def call_def split: prod.splits)

lemma raises_only_liftE: "(\<And>err. r = Inl err \<Longrightarrow> P err) \<Longrightarrow> raises_only P (liftE r)"
  by (auto simp: raises_only_def liftE_def)

lemma raises_only_bindE:
  "raises_only P m \<Longrightarrow> (\<And>x. raises_only P (f x)) \<Longrightarrow> raises_only P (bindE m f)"
  unfolding raises_only_def bindE_def
  by (auto split: prod.splits sum.splits)

lemma raises_only_record_event: "raises_only P (record_event ev)"
  by (simp add: raises_only_def record_event_def)

lemma raises_only_bind_call:
  assumes "ext_raises_only P f"
    and "\<And>e x e'. f e = (Inr x, e') \<Longrightarrow> raises_only P (g x)"
  shows "raises_only P (bindE (call f) g)"
  using assms unfolding raises_only_def ext_raises_only_def call_def bindE_def
  by (auto split: prod.splits sum.splits)

lemma raises_only_train_step:
  assumes "collaborators_raise_only P lib self sd bs kw"
  shows "raises_only P (train_step self bs (Some d) kw)"
  using assms unfolding train_step_def backprop_step_def collaborators_raise_only_def
  by (auto simp: monad_simps intro!: raises_only_bindE raises_only_call raises_only_liftE raises_only_returnE)

lemma raises_only_save_after_epoch:
  assumes "collaborators_raise_only P lib self sd bs kw"
  shows "raises_only P (save_after_epoch self sv)"
  using assms unfolding save_after_epoch_def collaborators_raise_only_def
  by (auto split: option.splits intro!: raises_only_call raises_only_returnE)

lemma raises_only_offline_batches:
  assumes "collaborators_raise_only P lib self sd bs kw"
  shows "raises_only P (offline_batches self bs kw ds acc)"
  by (induction ds arbitrary: acc)
     (auto intro!: raises_only_bindE raises_only_returnE raises_only_train_step [OF assms])

lemma raises_only_offline_epochs:
  assumes "collaborators_raise_only P lib self sd bs kw" and "ext_raises_only P data_set"
  shows "raises_only P (offline_epochs self data_set bs sv kw eps losses)"
  by (induction eps arbitrary: losses)
     (auto intro!: raises_only_bindE raises_only_returnE raises_only_call assms(2)
        raises_only_offline_batches [OF assms(1)] raises_only_save_after_epoch [OF assms(1)])

lemma raises_only_train_offline:
  assumes "collaborators_raise_only P lib self sd bs kw"
  shows "raises_only P (train_offline lib self sd epochs bs sv kw)"
proof -
  have ds: "ext_raises_only P (SimulatedDataset lib sd bs)"
    and it: "\<And>e data_set e'. SimulatedDataset lib sd bs e = (Inr data_set, e') \<Longrightarrow> ext_raises_only P data_set"
    using assms unfolding collaborators_raise_only_def by blast+
  show ?thesis
    unfolding train_offline_def
    by (intro raises_only_bindE raises_only_record_event raises_only_bind_call [OF ds]
          raises_only_offline_epochs [OF assms] it)
qed

text \<open>
  C9. Offline training never touches the generative model. Whatever the simulations and
  whatever the outcome, the only event recorded is the entry into offline training (no
  invocation of the generative model); the run is the same with the generative model
  removed from the trainer; and an exception that comes out of it is one that a
  collaborator raised (or the unpacking of keyword arguments): if those raise only
  exceptions in \<open>P\<close>, so does offline training. With \<open>P\<close> excluding \<^verbatim>\<open>SimulationError\<close>
  it never raises one, and with collaborators that do not raise it completes.
\<close>

theorem offline_training_never_simulates:
  assumes "train_offline lib self simulations_dict epochs batch_size save_checkpoint kw w = (res, w')"
  shows "events w' = events w @ [Offline simulations_dict]
       \<and> train_offline lib (self\<lparr>generative_model := None\<rparr>) simulations_dict epochs batch_size
           save_checkpoint kw w = (res, w')
       \<and> (collaborators_raise_only P lib self simulations_dict batch_size kw \<longrightarrow>
            (\<forall>err. res = Inl err \<longrightarrow> P err))"
proof (intro conjI impI allI)
  show "events w' = events w @ [Offline simulations_dict]"
    using assms by (rule train_offline_events)
  show "train_offline lib (self\<lparr>generative_model := None\<rparr>) simulations_dict epochs batch_size
           save_checkpoint kw w = (res, w')"
    using assms by (simp add: train_offline_model)
next
  fix err
  assume "collaborators_raise_only P lib self simulations_dict batch_size kw" and "res = Inl err"
  with assms raises_only_train_offline [of P lib self simulations_dict batch_size kw epochs save_checkpoint]
  show "P err"
    by (auto simp: raises_only_def)
qed

lemma example_offline_run:
  "train_offline example_lib (example_trainer None) [(''sim_data'', NDArray [2] [[0, 1]])] 1 1 False [] start =
     (Inr [(1, [1])], \<lparr>env = 0, events = [Offline [(''sim_data'', NDArray [2] [[0, 1]])]]\<rparr>)"
  by (simp add: train_offline_def bindE_def record_event_def call_def example_lib_def
        example_dataset_def example_pass_def start_def upto_rec1 train_step_def returnE_def liftE_def
        pop_args_def example_trainer_def example_configurator_def backprop_step_def example_loss_def
        example_step_def save_after_epoch_def)

lemma example_collaborators:
  "collaborators_raise_only (\<lambda>err. False) example_lib (example_trainer None) d 1 []"
  by (simp add: collaborators_raise_only_def ext_raises_only_def example_lib_def example_trainer_def
        example_configurator_def example_loss_def example_step_def example_dataset_def
        example_pass_def pop_args_def)

theorem offline_training_never_simulates_witness:
  "train_offline example_lib (example_trainer None) [(''sim_data'', NDArray [2] [[0, 1]])] 1 1 False [] start =
     (Inr [(1, [1])], \<lparr>env = 0, events = [Offline [(''sim_data'', NDArray [2] [[0, 1]])]]\<rparr>)
   \<and> collaborators_raise_only (\<lambda>err. False) example_lib (example_trainer None)
        [(''sim_data'', NDArray [2] [[0, 1]])] 1 []
   \<and> events \<lparr>env = 0::nat, events = [Offline [(''sim_data'', NDArray [2] [[0, 1]])]]\<rparr> =
        events start @ [Offline [(''sim_data'', NDArray [2] [[0, 1]])]]
   \<and> train_offline example_lib ((example_trainer None)\<lparr>generative_model := None\<rparr>)
        [(''sim_data'', NDArray [2] [[0, 1]])] 1 1 False [] start =
     (Inr [(1, [1])], \<lparr>env = 0, events = [Offline [(''sim_data'', NDArray [2] [[0, 1]])]]\<rparr>)"
  using offline_training_never_simulates [OF example_offline_run, of "\<lambda>err. False"]
    example_offline_run example_collaborators
  by simp

section \<open>Round-based training\<close>

lemma extend_entry_nothing: "extend_entry [] e = e"
proof (cases e)
  case (Pair k v)
  then show ?thesis by (cases v) simp_all
qed

lemma concatenation_single: "concatenation [b] = b"
  by (simp add: extend_entry_nothing map_idI)

lemma np_concatenate_Inr:
  assumes "np_concatenate v v_r = Inr c"
  obtains sh rows rows_r where "v = NDArray sh rows" and "v_r = NDArray sh rows_r"
    and "c = NDArray sh (rows @ rows_r)"
  using assms by (cases v; cases v_r) (auto split: if_splits)

lemma concatenate_rounds_entry:
  assumes "map_of b k = Some v_r" and "np_concatenate v v_r = Inr c"
  shows "v \<noteq> PNone \<and> fits b (k, v) \<and> entry_extended v c
       \<and> (\<forall>later sh rows. extend_entry later (k, v0) = (k, v) \<longrightarrow>
            extend_entry (later @ [b]) (k, v0) = (k, c))"
proof -
  from assms(2) obtain sh rows rows_r where
    v: "v = NDArray sh rows" and vr: "v_r = NDArray sh rows_r" and c: "c = NDArray sh (rows @ rows_r)"
    by (rule np_concatenate_Inr)
  have "extend_entry (later @ [b]) (k, v0) = (k, c)" if "extend_entry later (k, v0) = (k, v)" for later
    using that v vr c assms(1) by (cases v0) (auto simp: rows_at_def)
  then show ?thesis
    using v vr c assms(1) by simp
qed

lemma concatenate_rounds_result:
  assumes "concatenate_rounds (map (extend_entry later) ents) b = Inr d"
  shows "d = map (extend_entry (later @ [b])) ents \<and> (\<forall>e \<in> set ents. fits b e)"
  using assms
proof (induction ents arbitrary: d)
  case Nil
  then show ?case by simp
next
  case (Cons e ents)
  obtain k v0 where e: "e = (k, v0)" by (cases e)
  obtain v where ev: "extend_entry later (k, v0) = (k, v)"
    by (cases v0) simp_all
  show ?case
  proof (cases "v = PNone")
    case True
    then have v0: "v0 = PNone" using ev by (cases v0) simp_all
    from Cons.prems obtain rest where rest: "concatenate_rounds (map (extend_entry later) ents) b = Inr rest"
      and d: "d = (k, PNone) # rest"
      using e v0 by (auto split: sum.splits)
    from Cons.IH [OF rest] show ?thesis
      using e v0 d by simp
  next
    case False
    from Cons.prems obtain v_r c rest where look: "map_of b k = Some v_r"
      and cat: "np_concatenate v v_r = Inr c"
      and rest: "concatenate_rounds (map (extend_entry later) ents) b = Inr rest"
      and d: "d = (k, c) # rest"
      using e ev False by (auto split: option.splits sum.splits)
    from concatenate_rounds_entry [OF look cat, of v0]
    have ext: "extend_entry (later @ [b]) (k, v0) = (k, c)" and fit: "fits b (k, v)"
      using ev by auto
    have "fits b (k, v0)"
      using fit ev by (cases v0) (auto simp: rows_at_def split: option.splits pyval.splits)
    with Cons.IH [OF rest] show ?thesis
      using e d ext by simp
  qed
qed

lemma concatenate_rounds_concatenation:
  assumes "concatenate_rounds (concatenation (b0 # later)) b = Inr d"
  shows "d = concatenation (b0 # later @ [b])" and "\<forall>e \<in> set b0. fits b e"
  using concatenate_rounds_result [of later b0 b d] assms by simp_all

lemma concatenate_rounds_only_extended:
  assumes "concatenate_rounds acc b = Inr d"
  shows "only_extended acc d"
  using assms
proof (induction acc arbitrary: d)
  case Nil
  then show ?case by (simp add: only_extended_def)
next
  case (Cons e acc)
  obtain k v where e: "e = (k, v)" by (cases e)
  show ?case
  proof (cases "v = PNone")
    case True
    from Cons.prems obtain rest where rest: "concatenate_rounds acc b = Inr rest"
      and d: "d = (k, PNone) # rest"
      using e True by (auto split: sum.splits)
    from Cons.IH [OF rest] show ?thesis
      using e True d by (simp add: only_extended_def)
  next
    case False
    from Cons.prems obtain v_r c rest where look: "map_of b k = Some v_r"
      and cat: "np_concatenate v v_r = Inr c"
      and rest: "concatenate_rounds acc b = Inr rest"
      and d: "d = (k, c) # rest"
      using e False by (auto split: option.splits sum.splits)
    from concatenate_rounds_entry [OF look cat] have "entry_extended v c"
      by simp
    with Cons.IH [OF rest] show ?thesis
      using e d by (simp add: only_extended_def)
  qed
qed

lemma entry_extended_trans:
  "entry_extended a b \<Longrightarrow> entry_extended b c \<Longrightarrow> entry_extended a c"
  by (cases a; cases b; cases c) auto

lemma fits_rows:
  assumes "fits b (k, NDArray sh rows)" and "batch_of n b"
  shows "int (length (rows_at b k)) = n"
proof -
  from assms(1) obtain rows' where look: "map_of b k = Some (NDArray sh rows')"
    by (auto split: option.splits pyval.splits)
  then have "(k, NDArray sh rows') \<in> set b"
    by (rule map_of_SomeD)
  with assms(2) have "int (length rows') = n"
    by (auto simp: batch_of_def)
  with look show ?thesis
    by (simp add: rows_at_def)
qed

lemma length_later_rows:
  assumes "\<forall>b \<in> set later. int (length (rows_at b k)) = n"
  shows "int (length (concat (map (\<lambda>b. rows_at b k) later))) = int (length later) * n"
  using assms by (induction later) (simp_all add: algebra_simps)

lemma batch_of_concatenation:
  assumes "batch_of n b0" and "\<forall>b \<in> set later. batch_of n b"
    and "\<forall>b \<in> set later. \<forall>e \<in> set b0. fits b e"
  shows "batch_of (int (Suc (length later)) * n) (concatenation (b0 # later))"
  unfolding batch_of_def
proof (intro ballI)
  fix e
  assume "e \<in> set (concatenation (b0 # later))"
  then obtain k0 v0 where in0: "(k0, v0) \<in> set b0" and ext: "e = extend_entry later (k0, v0)"
    by auto
  from in0 assms(1) have h0: "holds_samples n v0"
    by (auto simp: batch_of_def)
  show "case e of (k, v) \<Rightarrow> holds_samples (int (Suc (length later)) * n) v"
  proof (cases v0)
    case PNone
    with ext show ?thesis by simp
  next
    case (Scalar x)
    with h0 show ?thesis by simp
  next
    case (NDArray sh rows)
    have "\<forall>b \<in> set later. int (length (rows_at b k0)) = n"
      using assms(2,3) in0 NDArray fits_rows by blast
    then have "int (length (concat (map (\<lambda>b. rows_at b k0) later))) = int (length later) * n"
      by (rule length_later_rows)
    with NDArray ext h0 show ?thesis
      by (simp add: algebra_simps)
  qed
qed

lemma bindE_Inr_D:
  assumes "bindE m f w = (Inr y, w'')"
  shows "\<exists>x w'. m w = (Inr x, w') \<and> f x w' = (Inr y, w'')"
  using assms by (auto simp: bindE_def split: prod.splits sum.splits)

lemma forward_inference_events:
  assumes "forward_inference self n kw w = (Inr d, w')"
  shows "events w' = events w @ [Simulate n (Inr d)]"
  using assms
  by (auto simp: forward_inference_def raise_def invoke_generative_model_def
      split: option.splits prod.splits)

lemma forward_inference_offline_calls:
  assumes "forward_inference self n kw w = (r, w')"
  shows "offline_calls (events w') = offline_calls (events w)"
proof -
  have oc: "offline_calls (evs @ [Simulate n x]) = offline_calls evs" for evs x
    by (induction evs rule: offline_calls.induct) simp_all
  from assms show ?thesis
    by (auto simp: forward_inference_def raise_def invoke_generative_model_def oc
        split: option.splits prod.splits)
qed

lemma offline_calls_snoc: "offline_calls (evs @ [Offline d]) = offline_calls evs @ [d]"
  by (induction evs rule: offline_calls.induct) simp_all

lemma rounds_loop_accumulated:
  assumes "rounds_loop lib self n ep bs sv kw rs (Some (concatenation (b0 # later))) losses w = (Inr out, w')"
  shows "\<exists>new. length new = length rs
           \<and> events w' = events w @ expected_rounds n (b0 # later) new
           \<and> (\<forall>b \<in> set new. \<forall>e \<in> set b0. fits b e)"
  using assms
proof (induction rs arbitrary: later losses w)
  case Nil
  then show ?case by (simp add: returnE_def)
next
  case (Cons r rs)
  from Cons.prems have "bindE (bindE (forward_inference self n kw)
            (\<lambda>d_r. liftE (concatenate_rounds (concatenation (b0 # later)) d_r)))
          (\<lambda>sd. bindE (train_offline lib self sd ep bs sv kw) (\<lambda>losses_r.
             rounds_loop lib self n ep bs sv kw rs (Some sd) (losses @ [(r, losses_r)]))) w = (Inr out, w')"
    by simp
  from bindE_Inr_D [OF this] obtain sd w1 where
    gen: "bindE (forward_inference self n kw)
            (\<lambda>d_r. liftE (concatenate_rounds (concatenation (b0 # later)) d_r)) w = (Inr sd, w1)"
    and k1: "bindE (train_offline lib self sd ep bs sv kw) (\<lambda>losses_r.
             rounds_loop lib self n ep bs sv kw rs (Some sd) (losses @ [(r, losses_r)])) w1 = (Inr out, w')"
    by blast
  from bindE_Inr_D [OF k1] obtain losses_r w2 where
    off: "train_offline lib self sd ep bs sv kw w1 = (Inr losses_r, w2)"
    and rest: "rounds_loop lib self n ep bs sv kw rs (Some sd) (losses @ [(r, losses_r)]) w2 = (Inr out, w')"
    by blast
  from bindE_Inr_D [OF gen] obtain d_r where sim: "forward_inference self n kw w = (Inr d_r, w1)"
    and cat: "concatenate_rounds (concatenation (b0 # later)) d_r = Inr sd"
    by (auto simp: liftE_def)
  from concatenate_rounds_concatenation [OF cat]
  have sd: "sd = concatenation (b0 # later @ [d_r])" and fit: "\<forall>e \<in> set b0. fits d_r e"
    by simp_all
  have "rounds_loop lib self n ep bs sv kw rs (Some (concatenation (b0 # (later @ [d_r]))))
          (losses @ [(r, losses_r)]) w2 = (Inr out, w')"
    using rest sd by simp
  from Cons.IH [OF this] obtain new where
    new: "length new = length rs" "events w' = events w2 @ expected_rounds n (b0 # later @ [d_r]) new"
      "\<forall>b \<in> set new. \<forall>e \<in> set b0. fits b e"
    by auto
  have "events w2 = events w @ [Simulate n (Inr d_r), Offline sd]"
    using forward_inference_events [OF sim] train_offline_events [OF off] by simp
  with new sd fit have "length (d_r # new) = length (r # rs)
      \<and> events w' = events w @ expected_rounds n (b0 # later) (d_r # new)
      \<and> (\<forall>b \<in> set (d_r # new). \<forall>e \<in> set b0. fits b e)"
    by simp
  then show ?case by blast
qed

lemma rounds_loop_first:
  assumes "rounds_loop lib self n ep bs sv kw rs None losses w = (Inr out, w')"
  shows "\<exists>batches. length batches = length rs
           \<and> events w' = events w @ expected_rounds n [] batches
           \<and> (\<forall>b \<in> set (tl batches). \<forall>e \<in> set (hd batches). fits b e)"
proof (cases rs)
  case Nil
  with assms show ?thesis by (simp add: returnE_def)
next
  case (Cons r rs')
  from assms Cons have "bindE (forward_inference self n kw)
          (\<lambda>sd. bindE (train_offline lib self sd ep bs sv kw) (\<lambda>losses_r.
             rounds_loop lib self n ep bs sv kw rs' (Some sd) (losses @ [(r, losses_r)]))) w = (Inr out, w')"
    by simp
  from bindE_Inr_D [OF this] obtain b0 w1 where
    sim: "forward_inference self n kw w = (Inr b0, w1)"
    and k1: "bindE (train_offline lib self b0 ep bs sv kw) (\<lambda>losses_r.
             rounds_loop lib self n ep bs sv kw rs' (Some b0) (losses @ [(r, losses_r)])) w1 = (Inr out, w')"
    by blast
  from bindE_Inr_D [OF k1] obtain losses_r w2 where
    off: "train_offline lib self b0 ep bs sv kw w1 = (Inr losses_r, w2)"
    and rest: "rounds_loop lib self n ep bs sv kw rs' (Some b0) (losses @ [(r, losses_r)]) w2 = (Inr out, w')"
    by blast
  from rest have "rounds_loop lib self n ep bs sv kw rs' (Some (concatenation (b0 # []))) (losses @ [(r, losses_r)]) w2 = (Inr out, w')"
    by (simp add: extend_entry_nothing map_idI)
  from rounds_loop_accumulated [OF this] obtain new where
    new: "length new = length rs'" "events w' = events w2 @ expected_rounds n [b0] new"
      "\<forall>b \<in> set new. \<forall>e \<in> set b0. fits b e"
    by auto
  have "events w2 = events w @ [Simulate n (Inr b0), Offline b0]"
    using forward_inference_events [OF sim] train_offline_events [OF off] by simp
  with new Cons have "length (b0 # new) = length rs
      \<and> events w' = events w @ expected_rounds n [] (b0 # new)
      \<and> (\<forall>b \<in> set (tl (b0 # new)). \<forall>e \<in> set (hd (b0 # new)). fits b e)"
    by (simp add: extend_entry_nothing map_idI)
  then show ?thesis by blast
qed

text \<open>
  C6. In a run of round-based training that returns, there is one batch per round
  (\<open>rounds\<close> of them, none if \<open>rounds\<close> is not positive), and the events the run adds are,
  round after round, the simulation of \<open>sim_per_round\<close> that produced the batch and one
  entry into offline training, on the concatenation along axis 0 of all batches produced
  so far. If every batch is a batch of \<open>sim_per_round\<close> simulations, then every entry of the
  dictionary of round \<open>r\<close> that is not \<^verbatim>\<open>None\<close> is an array of \<open>r * sim_per_round\<close> rows.
\<close>

theorem rounds_grow_the_dataset:
  assumes "train_rounds lib self rounds sim_per_round epochs batch_size save_checkpoint kw w = (Inr losses, w')"
  shows "\<exists>batches. int (length batches) = max 0 rounds
           \<and> events w' = events w @ expected_rounds sim_per_round [] batches
           \<and> ((\<forall>b \<in> set batches. batch_of sim_per_round b) \<longrightarrow>
                (\<forall>r \<in> {1..length batches}.
                   batch_of (int r * sim_per_round) (concatenation (take r batches))))"
proof -
  from assms obtain batches where len: "length batches = length [1..rounds]"
    and ev: "events w' = events w @ expected_rounds sim_per_round [] batches"
    and fit: "\<forall>b \<in> set (tl batches). \<forall>e \<in> set (hd batches). fits b e"
    unfolding train_rounds_def by (blast dest: rounds_loop_first)
  have rows: "batch_of (int r * sim_per_round) (concatenation (take r batches))"
    if all: "\<forall>b \<in> set batches. batch_of sim_per_round b" and r: "r \<in> {1..length batches}" for r
  proof -
    from r obtain b0 new where b: "batches = b0 # new"
      by (cases batches) auto
    from r obtain q where q: "r = Suc q"
      by (cases r) auto
    have tk: "take r batches = b0 # take q new"
      using b q by simp
    have lq: "length (take q new) = q"
      using r b q by simp
    have "batch_of (int (Suc (length (take q new))) * sim_per_round) (concatenation (b0 # take q new))"
    proof (rule batch_of_concatenation)
      show "batch_of sim_per_round b0" using all b by simp
      show "\<forall>b \<in> set (take q new). batch_of sim_per_round b"
        using all b by (auto dest: in_set_takeD)
      show "\<forall>b \<in> set (take q new). \<forall>e \<in> set b0. fits b e"
        using fit b by (auto dest: in_set_takeD)
    qed
    then show ?thesis
      using tk lq q by simp
  qed
  have "int (length batches) = max 0 rounds"
    using len by simp
  with ev rows show ?thesis
    by blast
qed

lemma only_extended_trans:
  assumes "only_extended a b" and "only_extended b c"
  shows "only_extended a c"
proof -
  have "list_all2 entry_extended (map snd a) (map snd c)"
    using assms unfolding only_extended_def
    by (auto intro: list_all2_trans [where ?P1.0 = entry_extended and ?P2.0 = entry_extended]
          entry_extended_trans)
  with assms show ?thesis
    by (simp add: only_extended_def)
qed

lemma successively_extended_tail:
  "successively_extended cur (d # ds) \<Longrightarrow> successively_extended (Some d) ds"
  by (cases cur) simp_all

lemma successively_extended_all:
  "successively_extended (Some c) ds \<Longrightarrow> d \<in> set ds \<Longrightarrow> only_extended c d"
proof (induction ds arbitrary: c)
  case Nil
  then show ?case by simp
next
  case (Cons x ds)
  then show ?case
    by (auto intro: only_extended_trans)
qed

lemma successively_extended_pairs:
  "successively_extended cur ds \<Longrightarrow> i < j \<Longrightarrow> j < length ds \<Longrightarrow> only_extended (ds ! i) (ds ! j)"
proof (induction ds arbitrary: cur i j)
  case Nil
  then show ?case by simp
next
  case (Cons d ds)
  have tail: "successively_extended (Some d) ds"
    using Cons.prems(1) by (rule successively_extended_tail)
  obtain j' where j: "j = Suc j'" and j': "j' < length ds"
    using Cons.prems(2,3) by (cases j) auto
  show ?case
  proof (cases i)
    case 0
    with j j' tail show ?thesis
      by (auto intro: successively_extended_all)
  next
    case (Suc i')
    with j j' Cons.prems(2) Cons.IH [OF tail, of i' j'] show ?thesis
      by simp
  qed
qed

lemma offline_calls_append: "offline_calls (xs @ ys) = offline_calls xs @ offline_calls ys"
  by (induction xs rule: offline_calls.induct) simp_all

lemma length_offline_calls_expected:
  "length (offline_calls (expected_rounds n prev batches)) = length batches"
  by (induction batches arbitrary: prev) simp_all

lemma rounds_loop_offline_calls:
  assumes "rounds_loop lib self n ep bs sv kw rs cur losses w = (res, w')"
  shows "\<exists>dicts. offline_calls (events w') = offline_calls (events w) @ dicts
           \<and> successively_extended cur dicts"
  using assms
proof (induction rs arbitrary: cur losses w)
  case Nil
  then show ?case by (simp add: returnE_def)
next
  case (Cons r rs)
  let ?gen = "case cur of
                None \<Rightarrow> forward_inference self n kw
              | Some simulations_dict \<Rightarrow>
                  bindE (forward_inference self n kw) (\<lambda>simulations_dict_r.
                  liftE (concatenate_rounds simulations_dict simulations_dict_r))"
  let ?k = "\<lambda>sd. bindE (train_offline lib self sd ep bs sv kw) (\<lambda>losses_r.
             rounds_loop lib self n ep bs sv kw rs (Some sd) (losses @ [(r, losses_r)]))"
  have gen_calls: "offline_calls (events w1) = offline_calls (events w)
      \<and> (\<forall>sd c. x = Inr sd \<and> cur = Some c \<longrightarrow> only_extended c sd)"
    if "?gen w = (x, w1)" for x w1
  proof (cases cur)
    case None
    with that show ?thesis
      by (simp add: forward_inference_offline_calls)
  next
    case (Some c)
    with that have b: "bindE (forward_inference self n kw)
        (\<lambda>d_r. liftE (concatenate_rounds c d_r)) w = (x, w1)"
      by simp
    then show ?thesis
    proof (cases rule: bindE_cases)
      case (fails e)
      then show ?thesis
        by (simp add: forward_inference_offline_calls)
    next
      case (continues d_r w0)
      then show ?thesis
        using Some
        by (auto simp: liftE_def forward_inference_offline_calls
            dest: concatenate_rounds_only_extended)
    qed
  qed
  from Cons.prems have run: "bindE ?gen ?k w = (res, w')"
    by simp
  then show ?case
  proof (cases rule: bindE_cases)
    case (fails e)
    with gen_calls [of "Inl e" w'] show ?thesis
      by simp
  next
    case (continues sd w1)
    from gen_calls [OF continues(1)]
    have c1: "offline_calls (events w1) = offline_calls (events w)"
      and ext: "\<And>c. cur = Some c \<Longrightarrow> only_extended c sd"
      by simp_all
    have start: "successively_extended cur [sd]"
      using ext by (cases cur) simp_all
    from continues(2) show ?thesis
    proof (cases rule: bindE_cases)
      case (fails e)
      from train_offline_events [OF fails(1)] c1
      have "offline_calls (events w') = offline_calls (events w) @ [sd]"
        by (simp add: offline_calls_snoc)
      with start show ?thesis
        by blast
    next
      case (continues losses_r w2)
      from train_offline_events [OF continues(1)] c1
      have c2: "offline_calls (events w2) = offline_calls (events w) @ [sd]"
        by (simp add: offline_calls_snoc)
      from Cons.IH [OF continues(2)] obtain dicts where
        d: "offline_calls (events w') = offline_calls (events w2) @ dicts"
        and s: "successively_extended (Some sd) dicts"
        by blast
      have "successively_extended cur (sd # dicts)"
        using ext s by (cases cur) simp_all
      with d c2 have "offline_calls (events w') = offline_calls (events w) @ (sd # dicts)
          \<and> successively_extended cur (sd # dicts)"
        by simp
      then show ?thesis
        by blast
    qed
  qed
qed

text \<open>
  C10. Whatever the outcome of round-based training, each dictionary that offline
  training was entered with relates to each later one as follows: the keys are the same,
  an entry that is \<^verbatim>\<open>None\<close> is still \<^verbatim>\<open>None\<close> (whatever was simulated for its key since),
  and every other entry is an array of the same row shape that begins with the rows it had.
  In a run that returns there are \<open>rounds\<close> of them.
\<close>

theorem none_entries_stay_none:
  assumes "train_rounds lib self rounds sim_per_round epochs batch_size save_checkpoint kw w = (res, w')"
  shows "\<exists>dicts. offline_calls (events w') = offline_calls (events w) @ dicts
           \<and> (\<forall>i j. i < j \<and> j < length dicts \<longrightarrow> only_extended (dicts ! i) (dicts ! j))
           \<and> (\<forall>losses. res = Inr losses \<longrightarrow> int (length dicts) = max 0 rounds)"
proof -
  from assms obtain dicts where d: "offline_calls (events w') = offline_calls (events w) @ dicts"
    and s: "successively_extended None dicts"
    unfolding train_rounds_def by (blast dest: rounds_loop_offline_calls)
  have "int (length dicts) = max 0 rounds" if "res = Inr losses" for losses
  proof -
    from assms that obtain batches where len: "length batches = length [1..rounds]"
      and ev: "events w' = events w @ expected_rounds sim_per_round [] batches"
      unfolding train_rounds_def by (blast dest: rounds_loop_first)
    from ev d have "dicts = offline_calls (expected_rounds sim_per_round [] batches)"
      by (simp add: offline_calls_append)
    with len show ?thesis
      by (simp add: length_offline_calls_expected)
  qed
  with d successively_extended_pairs [OF s] show ?thesis
    by blast
qed

lemma example_model_first: "example_model 2 kw 0 = (Inr first_batch, 1)"
  by (simp add: example_model_def first_batch_def numeral_2_eq_2)

lemma example_model_second: "example_model 2 kw (Suc 0) = (Inr second_batch, 2)"
  by (simp add: example_model_def second_batch_def numeral_2_eq_2)

lemma example_train_offline:
  "train_offline example_lib (example_trainer g) d 1 2 False [] w =
     (Inr [(1, [1])], w\<lparr>events := events w @ [Offline d]\<rparr>)"
  by (simp add: train_offline_def bindE_def record_event_def call_def example_lib_def
        example_dataset_def example_pass_def upto_rec1 train_step_def returnE_def liftE_def
        pop_args_def example_trainer_def example_configurator_def backprop_step_def example_loss_def
        example_step_def save_after_epoch_def)

lemma example_merge: "concatenate_rounds first_batch second_batch = Inr both_batches"
  by (simp add: first_batch_def second_batch_def both_batches_def)

lemma example_rounds_run:
  "train_rounds example_lib (example_trainer (Some example_model)) 2 2 1 2 False [] start =
     (Inr [(1, [(1, [1])]), (2, [(1, [1])])],
      \<lparr>env = 2, events = [Simulate 2 (Inr first_batch), Offline first_batch,
                         Simulate 2 (Inr second_batch), Offline both_batches]\<rparr>)"
proof -
  have g: "generative_model (example_trainer (Some example_model)) = Some example_model"
    by (simp add: example_trainer_def)
  have sim1: "forward_inference (example_trainer (Some example_model)) 2 [] start =
      (Inr first_batch, \<lparr>env = 1, events = [Simulate 2 (Inr first_batch)]\<rparr>)"
    by (simp add: forward_inference_def g invoke_generative_model_def start_def example_model_first)
  have sim2: "forward_inference (example_trainer (Some example_model)) 2 []
       \<lparr>env = Suc 0, events = [Simulate 2 (Inr first_batch), Offline first_batch]\<rparr> =
      (Inr second_batch, \<lparr>env = 2, events = [Simulate 2 (Inr first_batch), Offline first_batch,
          Simulate 2 (Inr second_batch)]\<rparr>)"
    by (simp add: forward_inference_def g invoke_generative_model_def example_model_second)
  show ?thesis
    by (simp add: train_rounds_def upto_rec1 bindE_def sim1 sim2 example_train_offline
          liftE_def example_merge returnE_def)
qed

theorem rounds_grow_the_dataset_witness:
  "train_rounds example_lib (example_trainer (Some example_model)) 2 2 1 2 False [] start =
     (Inr [(1, [(1, [1])]), (2, [(1, [1])])],
      \<lparr>env = 2, events = [Simulate 2 (Inr first_batch), Offline first_batch,
                         Simulate 2 (Inr second_batch), Offline both_batches]\<rparr>)
   \<and> expected_rounds 2 [] [first_batch, second_batch] =
       [Simulate 2 (Inr first_batch), Offline first_batch,
        Simulate 2 (Inr second_batch), Offline both_batches]
   \<and> batch_of 2 first_batch \<and> batch_of 2 second_batch
   \<and> batch_of 2 (concatenation (take 1 [first_batch, second_batch]))
   \<and> batch_of 4 (concatenation (take 2 [first_batch, second_batch]))"
proof -
  from rounds_grow_the_dataset [OF example_rounds_run] obtain batches where
    len: "int (length batches) = max 0 2"
    and ev: "[Simulate 2 (Inr first_batch), Offline first_batch,
              Simulate 2 (Inr second_batch), Offline both_batches] = expected_rounds 2 [] batches"
    and rows: "(\<forall>b \<in> set batches. batch_of 2 b) \<longrightarrow>
                (\<forall>r \<in> {1..length batches}. batch_of (int r * 2) (concatenation (take r batches)))"
    by (auto simp: start_def)
  from len have "length batches = Suc (Suc 0)"
    by simp
  then obtain x y where xy: "batches = [x, y]"
    by (auto simp: length_Suc_conv)
  with ev have b: "batches = [first_batch, second_batch]"
    by simp
  have b1: "batch_of 2 first_batch" and b2: "batch_of 2 second_batch"
    by (simp_all add: batch_of_def first_batch_def second_batch_def)
  with rows b have all: "\<forall>r \<in> {1..2}. batch_of (int r * 2) (concatenation (take r [first_batch, second_batch]))"
    by simp
  have r1: "batch_of 2 (concatenation (take 1 [first_batch, second_batch]))"
    using all [rule_format, of 1] by simp
  have r2: "batch_of 4 (concatenation (take 2 [first_batch, second_batch]))"
    using all [rule_format, of 2] by simp
  from ev b have "expected_rounds 2 [] [first_batch, second_batch] =
       [Simulate 2 (Inr first_batch), Offline first_batch,
        Simulate 2 (Inr second_batch), Offline both_batches]"
    by simp
  with example_rounds_run b1 b2 r1 r2 show ?thesis
    by simp
qed

theorem none_entries_stay_none_witness:
  "train_rounds example_lib (example_trainer (Some example_model)) 2 2 1 2 False [] start =
     (Inr [(1, [(1, [1])]), (2, [(1, [1])])],
      \<lparr>env = 2, events = [Simulate 2 (Inr first_batch), Offline first_batch,
                         Simulate 2 (Inr second_batch), Offline both_batches]\<rparr>)
   \<and> (0::nat) < 1 \<and> 1 < length [first_batch, both_batches]
   \<and> only_extended ([first_batch, both_batches] ! 0) ([first_batch, both_batches] ! 1)
   \<and> map_of first_batch ''sim_non_batchable_context'' = Some PNone
   \<and> map_of second_batch ''sim_non_batchable_context'' = Some (NDArray [1] [[7], [7]])
   \<and> map_of both_batches ''sim_non_batchable_context'' = Some PNone
   \<and> int (length [first_batch, both_batches]) = max 0 2"
proof -
  let ?w = "\<lparr>env = 2::nat, events = [Simulate 2 (Inr first_batch), Offline first_batch,
                         Simulate 2 (Inr second_batch), Offline both_batches]\<rparr>"
  from none_entries_stay_none [OF example_rounds_run] obtain dicts where
    d0: "offline_calls (events ?w) = offline_calls (events start) @ dicts"
    and ext: "\<forall>i j. i < j \<and> j < length dicts \<longrightarrow> only_extended (dicts ! i) (dicts ! j)"
    and len0: "\<forall>losses. Inr [(1, [(1::int, [1::real])]), (2::int, [(1, [1])])] = Inr losses
                 \<longrightarrow> int (length dicts) = max 0 2"
    by blast
  from d0 have d: "[first_batch, both_batches] = dicts"
    by (simp add: start_def)
  from len0 have len: "int (length dicts) = max 0 2"
    by blast
  from ext [rule_format, of 0 1] d
  have "only_extended ([first_batch, both_batches] ! 0) ([first_batch, both_batches] ! 1)"
    by auto
  moreover have "map_of first_batch ''sim_non_batchable_context'' = Some PNone"
    "map_of second_batch ''sim_non_batchable_context'' = Some (NDArray [1] [[7], [7]])"
    "map_of both_batches ''sim_non_batchable_context'' = Some PNone"
    by (simp_all add: first_batch_def second_batch_def both_batches_def)
  ultimately show ?thesis
    using example_rounds_run len d by auto
qed

section \<open>The coupling layer is a bijection\<close>

lemma affine_roundtrip:
  assumes "length s = length x" and "length t = length x"
  shows "affine_inverse (affine x s t) s t = x"
  using assms
  by (auto simp: affine_def affine_inverse_def list_eq_iff_nth_eq algebra_simps
      simp flip: exp_add)

lemma length_affine:
  "length s = length x \<Longrightarrow> length t = length x \<Longrightarrow> length (affine x s t) = length x"
  by (simp add: affine_def)

lemma position_nth: "i \<in> set p \<Longrightarrow> position p i < length p \<and> p ! position p i = i"
  by (induction p) auto

lemma unpermute_permute:
  assumes "length p = length x" and "set p = {0..<length x}"
  shows "unpermute p (permute p x) = x"
proof (rule nth_equalityI)
  show len: "length (unpermute p (permute p x)) = length x"
    using assms(1) by (simp add: unpermute_def)
  fix i
  assume "i < length (unpermute p (permute p x))"
  with len have i: "i < length x"
    by simp
  with assms(2) have "i \<in> set p"
    by simp
  then have pos: "position p i < length p" "p ! position p i = i"
    by (simp_all add: position_nth)
  have "unpermute p (permute p x) ! i = permute p x ! position p i"
    using i assms(1) by (simp add: unpermute_def)
  also have "\<dots> = x ! i"
    using pos by (simp add: permute_def)
  finally show "unpermute p (permute p x) ! i = x ! i" .
qed

lemma length_permute: "length (permute p x) = length p"
  by (simp add: permute_def)

lemma act_norm_roundtrip:
  assumes "length a = length x" and "length b = length x" and "0 \<notin> set a"
  shows "act_norm_inverse (a, b) (fst (act_norm_forward (a, b) x)) = x"
proof (rule nth_equalityI)
  show len: "length (act_norm_inverse (a, b) (fst (act_norm_forward (a, b) x))) = length x"
    using assms(1,2) by (simp add: act_norm_inverse_def act_norm_forward_def)
  fix i
  assume "i < length (act_norm_inverse (a, b) (fst (act_norm_forward (a, b) x)))"
  with len have i: "i < length x"
    by simp
  then have "a ! i \<in> set a"
    using assms(1) by simp
  with assms(3) have nz: "a ! i \<noteq> 0"
    by metis
  show "act_norm_inverse (a, b) (fst (act_norm_forward (a, b) x)) ! i = x ! i"
    using i nz assms(1,2) by (simp add: act_norm_inverse_def act_norm_forward_def)
qed

lemma length_act_norm_forward:
  "length a = length x \<Longrightarrow> length b = length x \<Longrightarrow>
     length (fst (act_norm_forward (a, b) x)) = length x"
  by (simp add: act_norm_forward_def)

lemma coupling_roundtrip:
  assumes "valid_layer L" and "length x = n_params L"
  shows "coupling_inverse L (fst (coupling_forward L x c)) c = x"
proof -
  let ?h = "n_params L div 2"
  let ?x1 = "take ?h x" and ?x2 = "drop ?h x"
  let ?s = "scales L ?x1 c" and ?t = "network_t L ?x1 c"
  have l1: "length ?x1 = ?h"
    using assms(2) by simp
  have ls: "length ?s = length ?x2" and lt: "length ?t = length ?x2"
    using assms by (simp_all add: valid_layer_def scales_def)
  have "coupling_inverse L (?x1 @ affine ?x2 ?s ?t) c = ?x1 @ affine_inverse (affine ?x2 ?s ?t) ?s ?t"
    using l1 by (simp add: coupling_inverse_def Let_def)
  also have "\<dots> = x"
    by (simp add: affine_roundtrip [OF ls lt])
  finally show ?thesis
    by (simp add: coupling_forward_def Let_def)
qed

lemma length_coupling_forward:
  assumes "valid_layer L" and "length x = n_params L"
  shows "length (fst (coupling_forward L x c)) = n_params L"
  using assms
  by (simp add: coupling_forward_def Let_def affine_def valid_layer_def scales_def)

lemma pre_roundtrip:
  assumes "valid_layer L" and "length x = n_params L"
  shows "pre_inverse L (fst (pre_forward L x)) = x" and "length (fst (pre_forward L x)) = n_params L"
proof -
  let ?xa = "fst (case act_norm L of Some ab \<Rightarrow> act_norm_forward ab x | None \<Rightarrow> (x, 0))"
  have xa_len: "length ?xa = n_params L"
    using assms by (auto simp: valid_layer_def length_act_norm_forward split: option.splits)
  have xa_back: "(case act_norm L of Some ab \<Rightarrow> act_norm_inverse ab ?xa | None \<Rightarrow> ?xa) = x"
    using assms by (auto simp: valid_layer_def act_norm_roundtrip split: option.splits)
  have fwd: "fst (pre_forward L x) = (case permutation L of Some p \<Rightarrow> permute p ?xa | None \<Rightarrow> ?xa)"
    by (simp add: pre_forward_def case_prod_beta)
  have perm_back: "(case permutation L of Some p \<Rightarrow> unpermute p (fst (pre_forward L x))
                     | None \<Rightarrow> fst (pre_forward L x)) = ?xa"
    using assms(1) xa_len unfolding fwd
    by (auto simp: valid_layer_def unpermute_permute split: option.splits)
  show "pre_inverse L (fst (pre_forward L x)) = x"
    unfolding pre_inverse_def Let_def perm_back by (rule xa_back)
  show "length (fst (pre_forward L x)) = n_params L"
    using assms(1) xa_len unfolding fwd
    by (auto simp: valid_layer_def length_permute split: option.splits)
qed

lemma transform_roundtrip:
  assumes "valid_layer L" and "length x = n_params L"
  shows "pre_inverse L (coupling_inverse L (fst (transform L x c)) c) = x"
    and "length (fst (transform L x c)) = n_params L"
proof -
  have z: "fst (transform L x c) = fst (coupling_forward L (fst (pre_forward L x)) c)"
    by (simp add: transform_def case_prod_beta)
  note pre = pre_roundtrip [OF assms]
  show "pre_inverse L (coupling_inverse L (fst (transform L x c)) c) = x"
    unfolding z by (simp add: coupling_roundtrip [OF assms(1) pre(2)] pre(1))
  show "length (fst (transform L x c)) = n_params L"
    unfolding z by (rule length_coupling_forward [OF assms(1) pre(2)])
qed

lemma check_shapes_length:
  "length z = length x \<Longrightarrow> check_shapes L z c = check_shapes L x c"
  by (simp add: check_shapes_def)

lemma sample_roundtrip:
  assumes "valid_layer L" and "forward_sample L x c = Inr (z, j)"
  shows "inverse_sample L z c = Inr x" and "length z = length x"
proof -
  from assms(2) have ok: "check_shapes L x c = None" and z: "z = fst (transform L x c)"
    by (auto simp: forward_sample_def split: option.splits)
  from ok have len: "length x = n_params L"
    by (auto simp: check_shapes_def split: if_splits)
  from transform_roundtrip [OF assms(1) len, of c] z
  have inv: "pre_inverse L (coupling_inverse L z c) = x" and lz: "length z = n_params L"
    by simp_all
  show "length z = length x"
    using lz len by simp
  then have "check_shapes L z c = None"
    using ok check_shapes_length [of z x L c] by simp
  then show "inverse_sample L z c = Inr x"
    by (simp add: inverse_sample_def inv)
qed

lemma collect_map_all_Inr: "collect (map Inr ys) = Inr ys"
  by (induction ys) simp_all

lemma collect_Inr_D: "collect rs = Inr ys \<Longrightarrow> rs = map Inr ys"
proof (induction rs arbitrary: ys)
  case Nil
  then show ?case by simp
next
  case (Cons r rs)
  from Cons.prems obtain y ys' where "r = Inr y" and "collect rs = Inr ys'" and "ys = y # ys'"
    by (auto split: sum.splits)
  with Cons.IH [of ys'] show ?case
    by simp
qed

lemma collect_Inr:
  "collect rs = Inr ys \<longleftrightarrow> rs = map Inr ys"
  using collect_Inr_D collect_map_all_Inr by blast

lemma collect_map_Inr:
  assumes "collect (map f xs) = Inr ys"
  shows "length ys = length xs" and "\<And>i. i < length xs \<Longrightarrow> f (xs ! i) = Inr (ys ! i)"
proof -
  from assms have eq: "map f xs = map Inr ys"
    by (simp add: collect_Inr)
  then show len: "length ys = length xs"
    by (metis length_map)
  fix i
  assume "i < length xs"
  with eq len show "f (xs ! i) = Inr (ys ! i)"
    by (metis nth_map)
qed

lemma collect_mapI:
  assumes "length ys = length xs" and "\<And>i. i < length xs \<Longrightarrow> f (xs ! i) = Inr (ys ! i)"
  shows "collect (map f xs) = Inr ys"
proof -
  have "map f xs = map Inr ys"
    using assms by (simp add: list_eq_iff_nth_eq)
  then show ?thesis
    by (simp add: collect_Inr)
qed

lemma condition_rows_Inr:
  assumes "condition_rows n condition = Inr cs"
  shows "length cs = n" and "\<And>i. i < n \<Longrightarrow> cs ! i = condition_row condition i"
  using assms
  by (auto simp: condition_rows_def condition_row_def split: option.splits if_splits)

lemma forward_pass_Inr:
  assumes "forward_pass L x condition = Inr (z, ldj)"
  shows "length z = length x" and "length ldj = length x"
    and "\<And>i. i < length x \<Longrightarrow>
           forward_sample L (x ! i) (condition_row condition i) = Inr (z ! i, ldj ! i)"
proof -
  from assms obtain cs zs where cs: "condition_rows (length x) condition = Inr cs"
    and zs: "collect (map (\<lambda>(xi, ci). forward_sample L xi ci) (zip x cs)) = Inr zs"
    and z: "z = map fst zs" and j: "ldj = map snd zs"
    by (auto simp: forward_pass_def split: sum.splits)
  note c = condition_rows_Inr [OF cs]
  note r = collect_map_Inr [OF zs]
  have lz: "length zs = length x"
    using r(1) c(1) by simp
  show "length z = length x" and "length ldj = length x"
    using lz z j by simp_all
  fix i
  assume i: "i < length x"
  then have "forward_sample L (x ! i) (cs ! i) = Inr (zs ! i)"
    using r(2) [of i] c(1) by simp
  then show "forward_sample L (x ! i) (condition_row condition i) = Inr (z ! i, ldj ! i)"
    using i c(2) z j lz by simp
qed

text \<open>
  C2. Whenever the forward pass returns, the transformed batch has as many samples as the
  input and each of them as many dimensions as the input sample, and there is one
  log-determinant per sample.
\<close>

theorem coupling_layer_shapes:
  assumes "valid_layer L" and "forward_pass L x condition = Inr (z, ldj)"
  shows "length z = length x \<and> (\<forall>i < length x. length (z ! i) = length (x ! i))
       \<and> length ldj = length x"
  using forward_pass_Inr [OF assms(2)] sample_roundtrip(2) [OF assms(1)]
  by blast

lemma matching_rows:
  assumes "matching L x condition"
  shows "\<exists>cs. condition_rows (length x) condition = Inr cs"
    and "\<And>i. i < length x \<Longrightarrow> check_shapes L (x ! i) (condition_row condition i) = None"
  using assms
  by (auto simp: matching_def condition_rows_def condition_row_def check_shapes_def
      split: option.splits)

lemma forward_pass_matching:
  assumes "matching L x condition"
  shows "\<exists>z ldj. forward_pass L x condition = Inr (z, ldj)"
proof -
  from matching_rows(1) [OF assms] obtain cs where cs: "condition_rows (length x) condition = Inr cs"
    by blast
  note c = condition_rows_Inr [OF cs]
  have "collect (map (\<lambda>(xi, ci). forward_sample L xi ci) (zip x cs)) =
        Inr (map (\<lambda>(xi, ci). transform L xi ci) (zip x cs))"
  proof (rule collect_mapI)
    show "length (map (\<lambda>(xi, ci). transform L xi ci) (zip x cs)) = length (zip x cs)"
      by simp
    fix i
    assume "i < length (zip x cs)"
    then have i: "i < length x"
      by simp
    from matching_rows(2) [OF assms i] c i
    show "(case zip x cs ! i of (xi, ci) \<Rightarrow> forward_sample L xi ci) =
          Inr (map (\<lambda>(xi, ci). transform L xi ci) (zip x cs) ! i)"
      by (simp add: forward_sample_def)
  qed
  with cs show ?thesis
    by (simp add: forward_pass_def)
qed

lemma inverse_pass_matching:
  assumes "matching L z condition"
  shows "\<exists>x. inverse_pass L z condition = Inr x
           \<and> (\<forall>i < length z. x ! i = pre_inverse L (coupling_inverse L (z ! i) (condition_row condition i)))"
proof -
  from matching_rows(1) [OF assms] obtain cs where cs: "condition_rows (length z) condition = Inr cs"
    by blast
  note c = condition_rows_Inr [OF cs]
  let ?xs = "map (\<lambda>(zi, ci). pre_inverse L (coupling_inverse L zi ci)) (zip z cs)"
  have "collect (map (\<lambda>(zi, ci). inverse_sample L zi ci) (zip z cs)) = Inr ?xs"
  proof (rule collect_mapI)
    show "length ?xs = length (zip z cs)"
      by simp
    fix i
    assume "i < length (zip z cs)"
    then have i: "i < length z"
      by simp
    from matching_rows(2) [OF assms i] c i
    show "(case zip z cs ! i of (zi, ci) \<Rightarrow> inverse_sample L zi ci) = Inr (?xs ! i)"
      by (simp add: inverse_sample_def)
  qed
  with cs have "inverse_pass L z condition = Inr ?xs"
    by (simp add: inverse_pass_def)
  moreover have "\<forall>i < length z. ?xs ! i = pre_inverse L (coupling_inverse L (z ! i) (condition_row condition i))"
    using c by simp
  ultimately show ?thesis
    by blast
qed

text \<open>
  C1. For every batch of the declared dimensionality and every matching condition (none
  for an unconditional layer), the forward pass of a layer returns, and the inverse pass on
  what it returns, with the same condition, gives the batch back. The arithmetic is that of
  the reals, where the two agree exactly.
\<close>

theorem coupling_layer_invertible:
  assumes "valid_layer L" and "matching L x condition"
  shows "\<exists>z ldj. forward_pass L x condition = Inr (z, ldj) \<and> inverse_pass L z condition = Inr x"
proof -
  from forward_pass_matching [OF assms(2)] obtain z ldj where
    fwd: "forward_pass L x condition = Inr (z, ldj)"
    by blast
  note f = forward_pass_Inr [OF fwd]
  from matching_rows(1) [OF assms(2)] f(1) obtain cs where
    cs: "condition_rows (length z) condition = Inr cs"
    by auto
  note c = condition_rows_Inr [OF cs]
  have "collect (map (\<lambda>(zi, ci). inverse_sample L zi ci) (zip z cs)) = Inr x"
  proof (rule collect_mapI)
    show "length x = length (zip z cs)"
      using f(1) c(1) by simp
    fix i
    assume "i < length (zip z cs)"
    then have i: "i < length x"
      using f(1) by simp
    from sample_roundtrip(1) [OF assms(1) f(3) [OF i]] c i f(1)
    show "(case zip z cs ! i of (zi, ci) \<Rightarrow> inverse_sample L zi ci) = Inr (x ! i)"
      by simp
  qed
  with cs have "inverse_pass L z condition = Inr x"
    by (simp add: inverse_pass_def)
  with fwd show ?thesis
    by blast
qed

text \<open>
  C8. Both passes accept batches of any size and act on each sample independently: if two
  batches (of any sizes) and their conditions agree at sample \<open>i\<close>, both passes return for
  both, and what they return for sample \<open>i\<close> is the same.
\<close>

theorem coupling_layer_per_sample:
  assumes "matching L x condition" and "matching L x' condition'"
    and "i < length x" and "i < length x'"
    and "x ! i = x' ! i" and "condition_row condition i = condition_row condition' i"
  shows "(\<exists>z ldj z' ldj'. forward_pass L x condition = Inr (z, ldj)
            \<and> forward_pass L x' condition' = Inr (z', ldj')
            \<and> z ! i = z' ! i \<and> ldj ! i = ldj' ! i)
       \<and> (\<exists>u u'. inverse_pass L x condition = Inr u \<and> inverse_pass L x' condition' = Inr u'
            \<and> u ! i = u' ! i)"
proof
  from forward_pass_matching [OF assms(1)] obtain z ldj where
    a: "forward_pass L x condition = Inr (z, ldj)" by blast
  from forward_pass_matching [OF assms(2)] obtain z' ldj' where
    b: "forward_pass L x' condition' = Inr (z', ldj')" by blast
  from forward_pass_Inr(3) [OF a assms(3)] forward_pass_Inr(3) [OF b assms(4)] assms(5,6)
  have "z ! i = z' ! i \<and> ldj ! i = ldj' ! i"
    by simp
  with a b show "\<exists>z ldj z' ldj'. forward_pass L x condition = Inr (z, ldj)
            \<and> forward_pass L x' condition' = Inr (z', ldj')
            \<and> z ! i = z' ! i \<and> ldj ! i = ldj' ! i"
    by blast
next
  from inverse_pass_matching [OF assms(1)] obtain u where
    a: "inverse_pass L x condition = Inr u"
    and ua: "u ! i = pre_inverse L (coupling_inverse L (x ! i) (condition_row condition i))"
    using assms(3) by blast
  from inverse_pass_matching [OF assms(2)] obtain u' where
    b: "inverse_pass L x' condition' = Inr u'"
    and ub: "u' ! i = pre_inverse L (coupling_inverse L (x' ! i) (condition_row condition' i))"
    using assms(4) by blast
  from ua ub assms(5,6) have "u ! i = u' ! i"
    by simp
  with a b show "\<exists>u u'. inverse_pass L x condition = Inr u \<and> inverse_pass L x' condition' = Inr u'
            \<and> u ! i = u' ! i"
    by blast
qed

text \<open>
  C7. A layer constructed with the permutation enabled has a permutation, and one constructed
  with the activation normalization enabled has an activation normalization.
\<close>

theorem sublayers_present:
  "(use_permutation m \<longrightarrow> permutation (AffineCouplingLayer m) \<noteq> None)
   \<and> (use_act_norm m \<longrightarrow> act_norm (AffineCouplingLayer m) \<noteq> None)"
  by (simp add: AffineCouplingLayer_def)

lemma example_layer_valid: "valid_layer (AffineCouplingLayer example_meta)"
  by (auto simp: valid_layer_def AffineCouplingLayer_def example_meta_def example_s_net_def
        example_t_net_def)

lemma example_layer_matching:
  "matching (AffineCouplingLayer example_meta) [[1, 2, 3]] (Some [[5]])"
  by (simp add: matching_def AffineCouplingLayer_def example_meta_def)

lemma example_forward:
  "forward_pass (AffineCouplingLayer example_meta) [[1, 2, 3]] (Some [[5]]) = Inr ([[3, 10, 4]], [ln 2])"
  by (simp add: forward_pass_def condition_rows_def forward_sample_def check_shapes_def
        transform_def pre_forward_def act_norm_forward_def permute_def coupling_forward_def
        scales_def affine_def AffineCouplingLayer_def example_meta_def example_s_net_def
        example_t_net_def)

theorem coupling_layer_invertible_witness:
  "valid_layer (AffineCouplingLayer example_meta)
   \<and> matching (AffineCouplingLayer example_meta) [[1, 2, 3]] (Some [[5]])
   \<and> forward_pass (AffineCouplingLayer example_meta) [[1, 2, 3]] (Some [[5]]) = Inr ([[3, 10, 4]], [ln 2])
   \<and> inverse_pass (AffineCouplingLayer example_meta) [[3, 10, 4]] (Some [[5]]) = Inr [[1, 2, 3]]"
  using coupling_layer_invertible [OF example_layer_valid example_layer_matching]
    example_layer_valid example_layer_matching example_forward
  by auto

theorem coupling_layer_shapes_witness:
  "valid_layer (AffineCouplingLayer example_meta)
   \<and> forward_pass (AffineCouplingLayer example_meta) [[1, 2, 3]] (Some [[5]]) = Inr ([[3, 10, 4]], [ln 2])
   \<and> length [[3, 10, 4 :: real]] = length [[1, 2, 3 :: real]]
   \<and> 0 < length [[1, 2, 3 :: real]]
   \<and> length ([[3, 10, 4 :: real]] ! 0) = length ([[1, 2, 3 :: real]] ! 0)
   \<and> length [ln 2 :: real] = length [[1, 2, 3 :: real]]"
  using coupling_layer_shapes [OF example_layer_valid example_forward]
    example_layer_valid example_forward
  by simp

theorem sublayers_present_witness:
  "use_permutation example_meta \<and> use_act_norm example_meta
   \<and> permutation (AffineCouplingLayer example_meta) \<noteq> None
   \<and> act_norm (AffineCouplingLayer example_meta) \<noteq> None"
  using sublayers_present [of example_meta]
  by (simp add: example_meta_def)

lemma example_matching_two:
  "matching (AffineCouplingLayer example_meta) [[1, 2, 3], [4, 5, 6]] (Some [[5], [7]])"
  by (simp add: matching_def AffineCouplingLayer_def example_meta_def)

lemma example_matching_three:
  "matching (AffineCouplingLayer example_meta) [[9, 9, 9], [4, 5, 6], [0, 0, 0]] (Some [[1], [7], [2]])"
  by (simp add: matching_def AffineCouplingLayer_def example_meta_def)

theorem coupling_layer_per_sample_witness:
  "matching (AffineCouplingLayer example_meta) [[1, 2, 3], [4, 5, 6]] (Some [[5], [7]])
   \<and> matching (AffineCouplingLayer example_meta) [[9, 9, 9], [4, 5, 6], [0, 0, 0]] (Some [[1], [7], [2]])
   \<and> (1::nat) < length [[1, 2, 3], [4, 5, 6 :: real]]
   \<and> (1::nat) < length [[9, 9, 9], [4, 5, 6], [0, 0, 0 :: real]]
   \<and> [[1, 2, 3], [4, 5, 6 :: real]] ! 1 = [[9, 9, 9], [4, 5, 6], [0, 0, 0]] ! 1
   \<and> condition_row (Some [[5], [7]]) 1 = condition_row (Some [[1], [7], [2]]) 1
   \<and> (\<exists>z ldj z' ldj'.
         forward_pass (AffineCouplingLayer example_meta) [[1, 2, 3], [4, 5, 6]] (Some [[5], [7]]) = Inr (z, ldj)
       \<and> forward_pass (AffineCouplingLayer example_meta) [[9, 9, 9], [4, 5, 6], [0, 0, 0]]
           (Some [[1], [7], [2]]) = Inr (z', ldj')
       \<and> z ! 1 = z' ! 1 \<and> ldj ! 1 = ldj' ! 1)
   \<and> (\<exists>u u'.
         inverse_pass (AffineCouplingLayer example_meta) [[1, 2, 3], [4, 5, 6]] (Some [[5], [7]]) = Inr u
       \<and> inverse_pass (AffineCouplingLayer example_meta) [[9, 9, 9], [4, 5, 6], [0, 0, 0]]
           (Some [[1], [7], [2]]) = Inr u'
       \<and> u ! 1 = u' ! 1)"
proof -
  have i1: "(1::nat) < length [[1, 2, 3], [4, 5, 6 :: real]]"
    and i2: "(1::nat) < length [[9, 9, 9], [4, 5, 6], [0, 0, 0 :: real]]"
    and row: "[[1, 2, 3], [4, 5, 6 :: real]] ! 1 = [[9, 9, 9], [4, 5, 6], [0, 0, 0]] ! 1"
    and cond: "condition_row (Some [[5], [7]]) 1 = condition_row (Some [[1], [7], [2]]) 1"
    by (simp_all add: condition_row_def)
  from coupling_layer_per_sample [OF example_matching_two example_matching_three i1 i2 row cond]
    example_matching_two example_matching_three i1 i2 row cond
  show ?thesis
    by blast
qed

end
